theory Spec2Isabelle
  imports Main
begin

section \<open>Run-time values\<close>

text \<open>
  The emitter is untyped at run time: a handler slot holds whatever value the caller
  passed. A function value is identified by the object it is (\<open>===\<close> compares
  identities): \<open>UserFn n\<close> is the caller's n-th ordinary function, \<open>AsyncFn n\<close> the
  caller's n-th function declared \<open>async\<close>, and \<open>Closure a\<close> the arrow function the
  emitter itself created as its a-th closure (see \<open>closure\<close> below).
  Numbers are modelled as integers; \<open>Err m\<close> is an Error object with message \<open>m\<close>.
  \<open>ObjectPrototype\<close> is the object \<open>Object.prototype\<close>, \<open>Builtin k\<close> the built-in function
  that it holds under the name \<open>k\<close>, and \<open>NewObject v\<close> the object that \<open>Object(v)\<close>
  creates for a \<open>v\<close> that is no object (an empty object for \<open>undefined\<close> and \<open>null\<close>, a
  wrapper otherwise).
\<close>

datatype fn = UserFn nat | AsyncFn nat | Closure nat

datatype jsval =
    Undefined
  | Null
  | Bool bool
  | Num int
  | Str string
  | Err string
  | PromiseObj
  | Fn fn
  | Arr "jsval list"
  | ObjectPrototype
  | Builtin string
  | NewObject jsval

fun truthy :: "jsval \<Rightarrow> bool" where
  "truthy Undefined = False"
| "truthy Null = False"
| "truthy (Bool b) = b"
| "truthy (Num n) = (n \<noteq> 0)"
| "truthy (Str s) = (s \<noteq> [])"
| "truthy _ = True"

fun is_function :: "jsval \<Rightarrow> bool" where
  "is_function (Fn f) = True"
| "is_function (Builtin k) = True"
| "is_function _ = False"

fun is_object :: "jsval \<Rightarrow> bool" where
  "is_object Undefined = False"
| "is_object Null = False"
| "is_object (Bool b) = False"
| "is_object (Num n) = False"
| "is_object (Str s) = False"
| "is_object _ = True"

fun is_array :: "jsval \<Rightarrow> bool" where
  "is_array (Arr xs) = True"
| "is_array _ = False"

fun instanceof_Error :: "jsval \<Rightarrow> bool" where
  "instanceof_Error (Err m) = True"
| "instanceof_Error _ = False"

fun nullish :: "jsval \<Rightarrow> bool" where
  "nullish Undefined = True"
| "nullish Null = True"
| "nullish _ = False"

text \<open>
  The registries of both emitters are plain objects (\<open>{}\<close>), so a key that a registry
  lacks as a property of its own reads as the property of that name of
  \<open>Object.prototype\<close>, if there is one. These are its property names with a string key
  (ECMAScript 2015 and later, with the additions for web browsers that Node and Bun
  implement). Under \<open>__proto__\<close> it holds an accessor that gives \<open>Object.prototype\<close>
  itself; under each of the others, a built-in function.
\<close>

definition Object_prototype_names :: "string list" where
  "Object_prototype_names =
     [''constructor'', ''__defineGetter__'', ''__defineSetter__'', ''hasOwnProperty'',
      ''__lookupGetter__'', ''__lookupSetter__'', ''isPrototypeOf'',
      ''propertyIsEnumerable'', ''toString'', ''valueOf'', ''__proto__'',
      ''toLocaleString'']"

definition inherited_name :: "string \<Rightarrow> bool" where
  "inherited_name key = (key \<in> set Object_prototype_names)"

text \<open>
  A call either returns, throws a value, or needs more call depth than it was given
  (\<open>Exhausted\<close>; the depth bounds the nesting of handler calls, see \<open>call\<close>).
  \<open>Unmodelled\<close> is the outcome of the one step that this model does not follow:
  \<open>on\<close> in flat mode for the event name \<open>__proto__\<close>, whose assignment replaces the
  prototype of the registry (see \<open>store_handler\<close>).
\<close>

datatype 'a outcome = Returned 'a | Thrown jsval | Exhausted | Unmodelled

text \<open>
  A \<open>TypeError\<close> thrown by the run time. Its message is the engine's own; the model
  keeps a short form of it.
\<close>

definition TypeError :: "string \<Rightarrow> jsval" where
  "TypeError m = Err (''TypeError: '' @ m)"

text \<open>
  The built-in functions of \<open>Object.prototype\<close>, called as the emitter calls a handler:
  with the arguments and without a receiver (\<open>this\<close> is \<open>undefined\<close>).
  \<open>toString\<close> gives the tag of \<open>undefined\<close>. \<open>constructor\<close> is \<open>Object\<close>, which gives
  its first argument if that is an object and a new object otherwise.
  \<open>isPrototypeOf\<close> answers false for an argument that is no object before it turns to
  its receiver. Each of the others converts its receiver to an object, at once or after
  it has turned its first argument into a property key, and that conversion throws.
\<close>

definition call_builtin :: "string \<Rightarrow> jsval list \<Rightarrow> jsval outcome" where
  "call_builtin key args =
     (let value = (case args of [] \<Rightarrow> Undefined | v # rest \<Rightarrow> v)
      in if key = ''toString'' then Returned (Str ''[object Undefined]'')
         else if key = ''constructor''
           then Returned (if is_object value then value else NewObject value)
         else if key = ''isPrototypeOf'' \<and> \<not> is_object value then Returned (Bool False)
         else Thrown (TypeError ''Cannot convert undefined or null to object''))"

text \<open>
  The two closures the emitter creates. \<open>Limited event handler remainingCalls\<close> is
  \<open>wrappedHandler\<close> of \<open>limitedTimes\<close> with the variables it captures;
  \<open>Prepared originalHandler promisify useNextTick\<close> is the arrow function returned by
  \<open>prepareHandler\<close>.
\<close>

datatype closure =
    Limited string jsval int
  | Prepared jsval bool bool

datatype queue = NextTickQueue | ImmediateQueue

datatype task = Task queue jsval "jsval list"

datatype warning = LeakWarning string int bool

section \<open>The wildcard tree\<close>

text \<open>
  A tree node is an object with the property \<open>_listeners\<close> (absent: \<open>Undefined\<close>) and one
  property per child segment. Segments are taken to differ from the property name
  \<open>_listeners\<close> and from the properties every object inherits.
\<close>

datatype node = Node (listeners: jsval) (children: "(string \<times> node) list")

definition empty_node :: node where
  "empty_node = Node Undefined []"

definition child :: "node \<Rightarrow> string \<Rightarrow> node option" where
  "child tree key = map_of (children tree) key"

fun set_child :: "string \<Rightarrow> node \<Rightarrow> (string \<times> node) list \<Rightarrow> (string \<times> node) list" where
  "set_child key n [] = [(key, n)]"
| "set_child key n ((k, m) # kms) =
     (if k = key then (k, n) # kms else (k, m) # set_child key n kms)"

text \<open>\<open>String.prototype.split\<close> with a string separator.\<close>

function split_on :: "string \<Rightarrow> string \<Rightarrow> string \<Rightarrow> string list" where
  "split_on sep acc [] = [rev acc]"
| "split_on sep acc (c # cs) =
     (if sep \<noteq> [] \<and> take (length sep) (c # cs) = sep
      then rev acc # split_on sep [] (drop (length sep) (c # cs))
      else split_on sep (c # acc) cs)"
  by pat_completeness auto
termination
  by (relation "measure (\<lambda>(sep, acc, s). length s)") auto

definition js_split :: "string \<Rightarrow> string \<Rightarrow> string list" where
  "js_split s sep = (if sep = [] then map (\<lambda>c. [c]) s else split_on sep [] s)"

text \<open>
  The handlers a \<open>_listeners\<close> property contributes:
  \<open>Array.isArray(l) ? l : [l]\<close>, guarded by \<open>if (l)\<close>.
\<close>

definition listeners_of :: "jsval \<Rightarrow> jsval list" where
  "listeners_of l = (if \<not> truthy l then [] else (case l of Arr hs \<Rightarrow> hs | _ \<Rightarrow> [l]))"

text \<open>
  \<open>traverse\<close> of \<open>findWildcardHandlers\<close>; the result is what the calls push onto
  \<open>foundHandlers\<close>, in order.
\<close>

function traverse :: "string list \<Rightarrow> node \<Rightarrow> bool \<Rightarrow> jsval list" where
  "traverse [] tree isDeepWildcard = listeners_of (listeners tree)"
| "traverse (current # rest) tree isDeepWildcard =
     (case child tree current of
        Some t \<Rightarrow> traverse rest t False
      | None \<Rightarrow> [])
     @ (case child tree ''*'' of
        Some t \<Rightarrow> traverse rest t False
      | None \<Rightarrow> [])
     @ (case child tree ''**'' of
        Some t \<Rightarrow>
          listeners_of (listeners t)
          @ traverse rest t True
          @ (if \<not> isDeepWildcard then traverse (current # rest) t True else [])
      | None \<Rightarrow> [])"
  by pat_completeness auto
termination
  by (relation "measure (\<lambda>(parts, tree, deep). 2 * length parts + (if deep then 0 else 1))")
     auto

text \<open>\<open>[...new Set(xs)]\<close>: the first occurrence of each value, in order.\<close>

fun set_spread :: "jsval list \<Rightarrow> jsval list \<Rightarrow> jsval list" where
  "set_spread seen [] = seen"
| "set_spread seen (x # xs) =
     set_spread (if x \<in> set seen then seen else seen @ [x]) xs"

text \<open>
  The three places of \<open>addToWildcardTree\<close> that store a handler in \<open>_listeners\<close>.
\<close>

definition add_listener :: "jsval \<Rightarrow> node \<Rightarrow> node" where
  "add_listener handler level =
     (if \<not> truthy (listeners level) then Node handler (children level)
      else (case listeners level of
              Arr hs \<Rightarrow> Node (Arr (hs @ [handler])) (children level)
            | l \<Rightarrow> Node (Arr [l, handler]) (children level)))"

text \<open>
  The loop of \<open>addToWildcardTree\<close> over the parts from the current level on;
  \<open>pattern\<close> says that the parts include \<open>*\<close> or \<open>**\<close> (the first branch).
\<close>

fun add_parts :: "bool \<Rightarrow> string list \<Rightarrow> jsval \<Rightarrow> node \<Rightarrow> node" where
  "add_parts pattern [] handler currentLevel = currentLevel"
| "add_parts pattern (part # rest) handler currentLevel =
     (let level1 = (if pattern \<and> part = ''**'' then add_listener handler currentLevel
                    else currentLevel);
          next0 = (case child level1 part of Some t \<Rightarrow> t | None \<Rightarrow> empty_node);
          next1 = (if rest = [] then add_listener handler next0 else next0)
      in Node (listeners level1)
              (set_child part (add_parts pattern rest handler next1) (children level1)))"

section \<open>The emitter\<close>

text \<open>
  The fields of the class, followed by what the model adds to observe effects: the
  closures allocated so far (\<open>heap\<close>; a closure's address is its index), the calls
  that entered a caller's function (\<open>calls\<close>, oldest first), the leak warnings
  written to the console and the callbacks handed to \<open>process.nextTick\<close> or
  \<open>setImmediate\<close>.
  \<open>eventHandlers\<close> holds the properties of the registry object itself and maps a key
  without one to \<open>Undefined\<close>; what \<open>this.eventHandlers[key]\<close> reads is \<open>registry_get\<close>
  below.
  The private arrays \<open>globalHandlers\<close> and \<open>globalInternalHandlers\<close> are created
  empty and no method writes them, so the loops over them in \<open>emit\<close> and
  \<open>emitAsync\<close> do nothing and the fields are left out; for the same reason the first
  line of \<open>emit\<close>, which returns false when both \<open>eventHandlers\<close> and
  \<open>globalHandlers\<close> are falsy, never returns.
  An event name is a string (the methods also take symbols and arrays of names).
\<close>

record emitter =
  eventHandlers :: "string \<Rightarrow> jsval"
  internalHandlers :: "string \<Rightarrow> jsval list option"
  maxHandlersCount :: int
  wildcardTree :: node
  supportsWildcards :: bool
  delimiter :: string
  notifyNewListener :: bool
  notifyRemoveListener :: bool
  detailedLeakWarnings :: bool
  suppressErrors :: bool
  heap :: "closure list"
  calls :: "(fn \<times> jsval list) list"
  console :: "warning list"
  scheduled :: "task list"

record settings =
  useWildcards :: "bool option"
  namespaceDelimiter :: "string option"
  emitNewListener :: "bool option"
  emitRemoveListener :: "bool option"
  maxHandlers :: "int option"
  detailedLeakWarnings_setting :: "bool option"
  suppressErrors_setting :: "bool option"

definition default_settings :: settings where
  "default_settings =
     \<lparr>useWildcards = None, namespaceDelimiter = None, emitNewListener = None,
      emitRemoveListener = None, maxHandlers = None,
      detailedLeakWarnings_setting = None, suppressErrors_setting = None\<rparr>"

definition coalesce :: "'a option \<Rightarrow> 'a \<Rightarrow> 'a" where
  "coalesce x d = (case x of Some v \<Rightarrow> v | None \<Rightarrow> d)"

definition new_EventEmitter :: "settings \<Rightarrow> emitter" where
  "new_EventEmitter st =
     \<lparr>eventHandlers = (\<lambda>k. Undefined),
      internalHandlers = (\<lambda>k. None),
      maxHandlersCount = coalesce (maxHandlers st) 10,
      wildcardTree = empty_node,
      supportsWildcards = coalesce (useWildcards st) False,
      delimiter = coalesce (namespaceDelimiter st) ''.'',
      notifyNewListener = coalesce (emitNewListener st) False,
      notifyRemoveListener = coalesce (emitRemoveListener st) False,
      detailedLeakWarnings = coalesce (detailedLeakWarnings_setting st) False,
      suppressErrors = coalesce (suppressErrors_setting st) False,
      heap = [], calls = [], console = [], scheduled = []\<rparr>"

text \<open>
  \<open>this.eventHandlers[key]\<close>: the property of the registry itself or, where it has none,
  the one it inherits from \<open>Object.prototype\<close>.
\<close>

definition inherited_value :: "string \<Rightarrow> jsval" where
  "inherited_value key =
     (if \<not> inherited_name key then Undefined
      else if key = ''__proto__'' then ObjectPrototype
      else Builtin key)"

definition registry_get :: "emitter \<Rightarrow> string \<Rightarrow> jsval" where
  "registry_get s key =
     (if eventHandlers s key = Undefined then inherited_value key else eventHandlers s key)"

record handler_options =
  runAsync :: "bool option"
  useNextTick :: "bool option"
  promisify :: "bool option"
  returnObject :: "bool option"

definition no_options :: handler_options where
  "no_options = \<lparr>runAsync = None, useNextTick = None, promisify = None, returnObject = None\<rparr>"

text \<open>\<open>handler.constructor.name === "AsyncFunction"\<close>; reading a property of
  \<open>undefined\<close> or \<open>null\<close> throws.\<close>

fun is_AsyncFunction :: "jsval \<Rightarrow> bool outcome" where
  "is_AsyncFunction Undefined = Thrown (TypeError ''Cannot read properties of undefined'')"
| "is_AsyncFunction Null = Thrown (TypeError ''Cannot read properties of null'')"
| "is_AsyncFunction (Fn (AsyncFn n)) = Returned True"
| "is_AsyncFunction _ = Returned False"

definition prepareHandler ::
  "jsval \<Rightarrow> handler_options \<Rightarrow> emitter \<Rightarrow> (jsval \<times> emitter) outcome" where
  "prepareHandler handler options s =
     (let runAsync' = coalesce (runAsync options) False;
          useNextTick' = coalesce (useNextTick options) False
      in case (case promisify options of
                 Some b \<Rightarrow> Returned b
               | None \<Rightarrow> is_AsyncFunction handler) of
           Thrown e \<Rightarrow> Thrown e
         | Exhausted \<Rightarrow> Exhausted
         | Unmodelled \<Rightarrow> Unmodelled
         | Returned promisify' \<Rightarrow>
             if \<not> runAsync' \<and> \<not> useNextTick' \<and> \<not> promisify' then Returned (handler, s)
             else Returned (Fn (Closure (length (heap s))),
                            s\<lparr>heap := heap s @ [Prepared handler promisify' useNextTick']\<rparr>))"

definition parseEventName :: "emitter \<Rightarrow> string \<Rightarrow> string list" where
  "parseEventName s event = js_split event (delimiter s)"

text \<open>
  \<open>findWildcardHandlers\<close> on an event already split into its parts
  (\<open>parseEventName\<close> maps an array of strings to itself).
\<close>

definition findWildcardHandlers :: "emitter \<Rightarrow> string list \<Rightarrow> jsval list" where
  "findWildcardHandlers s eventParts =
     set_spread [] (traverse eventParts (wildcardTree s) False)"

definition addToWildcardTree :: "string \<Rightarrow> jsval \<Rightarrow> emitter \<Rightarrow> emitter" where
  "addToWildcardTree event handler s =
     (let eventParts = parseEventName s event
      in s\<lparr>wildcardTree :=
             add_parts (''*'' \<in> set eventParts \<or> ''**'' \<in> set eventParts)
                       eventParts handler (wildcardTree s)\<rparr>)"

definition checkHandlerLimit :: "string \<Rightarrow> int \<Rightarrow> emitter \<Rightarrow> emitter" where
  "checkHandlerLimit event count s =
     (if maxHandlersCount s > 0 \<and> count > maxHandlersCount s
      then s\<lparr>console := console s @ [LeakWarning event count (detailedLeakWarnings s)]\<rparr>
      else s)"

text \<open>
  The property \<open>listener\<close> of a stored handler. No statement of the source assigns it
  (neither \<open>prepareHandler\<close> nor \<open>limitedTimes\<close> tags the wrapper it returns), and a
  caller's function is taken to carry none, so it reads as \<open>undefined\<close> on every value
  that has properties.
\<close>

definition listener :: "jsval \<Rightarrow> jsval" where
  "listener h = Undefined"

text \<open>
  \<open>handlers.findIndex((h) => h === handler || h.listener === handler)\<close>; the property
  read throws on \<open>undefined\<close> and \<open>null\<close>.
\<close>

fun findIndex :: "jsval \<Rightarrow> jsval list \<Rightarrow> nat option outcome" where
  "findIndex handler [] = Returned None"
| "findIndex handler (h # hs) =
     (if h = handler then Returned (Some 0)
      else if nullish h then Thrown (TypeError ''Cannot read properties of undefined'')
      else if listener h = handler then Returned (Some 0)
      else (case findIndex handler hs of
              Returned (Some i) \<Rightarrow> Returned (Some (Suc i))
            | r \<Rightarrow> r))"

definition splice1 :: "nat \<Rightarrow> 'a list \<Rightarrow> 'a list" where
  "splice1 i xs = take i xs @ drop (Suc i) xs"

text \<open>
  The body of a caller's function: \<open>None\<close> when it returns, \<open>Some e\<close> when it throws
  \<open>e\<close>. A caller's function does not itself call the emitter.
\<close>

type_synonym behaviour = "nat \<Rightarrow> jsval list \<Rightarrow> jsval option"

text \<open>
  The body of the wildcard branch of \<open>off\<close> for one \<open>match\<close>. A match is a handler
  taken from a \<open>_listeners\<close> property; it has no \<open>_listeners\<close> property of its own, so
  \<open>Array.isArray(handlers)\<close> is false and nothing is removed.
\<close>

definition off_match :: "jsval \<Rightarrow> unit outcome" where
  "off_match match =
     (if nullish match then Thrown (TypeError ''Cannot read properties of undefined'')
      else Returned ())"

fun off_matches :: "jsval list \<Rightarrow> unit outcome" where
  "off_matches [] = Returned ()"
| "off_matches (m # ms) =
     (case off_match m of Returned u \<Rightarrow> off_matches ms | r \<Rightarrow> r)"

text \<open>
  \<open>off\<close> up to the notification: the emitter after the removal, and whether a handler
  was removed (the places where the source goes on to notify). \<open>delete\<close> removes the
  property of the registry itself, if there is one; an inherited one stays.
\<close>

definition off_remove :: "string \<Rightarrow> jsval \<Rightarrow> emitter \<Rightarrow> (bool \<times> emitter) outcome" where
  "off_remove event handler s =
     (if supportsWildcards s then
        (case off_matches (findWildcardHandlers s (parseEventName s event)) of
           Returned u \<Rightarrow> Returned (False, s)
         | Thrown e \<Rightarrow> Thrown e
         | Exhausted \<Rightarrow> Exhausted
         | Unmodelled \<Rightarrow> Unmodelled)
      else
        (let handlers = registry_get s event
         in case handlers of
              Arr hs \<Rightarrow>
                (case findIndex handler hs of
                   Returned (Some index) \<Rightarrow>
                     (let hs' = splice1 index hs
                      in Returned (True,
                           s\<lparr>eventHandlers :=
                               (eventHandlers s)(event := (if hs' = [] then Undefined else Arr hs'))\<rparr>))
                 | Returned None \<Rightarrow> Returned (False, s)
                 | Thrown e \<Rightarrow> Thrown e
                 | Exhausted \<Rightarrow> Exhausted
                 | Unmodelled \<Rightarrow> Unmodelled)
            | _ \<Rightarrow>
                (if handlers = handler
                    \<or> (if nullish handlers then Undefined else listener handlers) = handler
                 then Returned (True, s\<lparr>eventHandlers := (eventHandlers s)(event := Undefined)\<rparr>)
                 else Returned (False, s))))"

text \<open>
  Calling a value that is not one of the emitter's counting wrappers. One of the
  caller's functions records the call; the body of an ordinary one then returns or
  throws, an \<open>async\<close> one returns a promise. The wrapper of \<open>prepareHandler\<close> hands the
  original handler to \<open>process.nextTick\<close> or \<open>setImmediate\<close> and returns; the run time
  is Node or Bun, where \<open>process.nextTick\<close> is a function. With \<open>promisify\<close> and
  \<open>useNextTick\<close> the wrapper calls \<open>Promise.resolve().then\<close> detached from its promise,
  which throws a TypeError. A built-in function does what \<open>call_builtin\<close> says. Any
  other value is not callable.
\<close>

definition call_plain :: "behaviour \<Rightarrow> jsval \<Rightarrow> jsval list \<Rightarrow> emitter \<Rightarrow> jsval outcome \<times> emitter" where
  "call_plain \<beta> f args s =
     (case f of
        Fn g \<Rightarrow>
          (case g of
             UserFn n \<Rightarrow>
               (case \<beta> n args of
                  None \<Rightarrow> (Returned Undefined, s\<lparr>calls := calls s @ [(UserFn n, args)]\<rparr>)
                | Some e \<Rightarrow> (Thrown e, s\<lparr>calls := calls s @ [(UserFn n, args)]\<rparr>))
           | AsyncFn n \<Rightarrow> (Returned PromiseObj, s\<lparr>calls := calls s @ [(AsyncFn n, args)]\<rparr>)
           | Closure a \<Rightarrow>
               (if a < length (heap s) then
                  (case heap s ! a of
                     Prepared originalHandler promisify' useNextTick' \<Rightarrow>
                       (if promisify' then
                          (if useNextTick'
                           then (Thrown (TypeError ''Promise.prototype.then called on undefined''), s)
                           else (Returned PromiseObj,
                                 s\<lparr>scheduled := scheduled s @
                                     [Task ImmediateQueue originalHandler args]\<rparr>))
                        else (Returned Undefined,
                              s\<lparr>scheduled := scheduled s @
                                  [Task (if useNextTick' then NextTickQueue else ImmediateQueue)
                                        originalHandler args]\<rparr>))
                   | Limited event handler remainingCalls \<Rightarrow>
                       (Thrown (TypeError ''not a function''), s))
                else (Thrown (TypeError ''not a function''), s)))
      | Builtin key \<Rightarrow> (call_builtin key args, s)
      | _ \<Rightarrow> (Thrown (TypeError ''not a function''), s))"

text \<open>The counting wrapper a value is, if it is one, with its address.\<close>

definition as_limited :: "jsval \<Rightarrow> emitter \<Rightarrow> (nat \<times> string \<times> jsval \<times> int) option" where
  "as_limited f s =
     (case f of
        Fn g \<Rightarrow>
          (case g of
             Closure a \<Rightarrow>
               (if a < length (heap s) then
                  (case heap s ! a of
                     Limited event handler remainingCalls \<Rightarrow>
                       Some (a, event, handler, remainingCalls)
                   | Prepared originalHandler promisify' useNextTick' \<Rightarrow> None)
                else None)
           | _ \<Rightarrow> None)
      | _ \<Rightarrow> None)"

text \<open>
  Calling a value, \<open>off\<close> and \<open>emitInternal\<close> call each other: the wrapper of
  \<open>limitedTimes\<close> calls \<open>off\<close>, which notifies the \<open>removeListener\<close> handlers. The
  first argument bounds the nesting of these calls.
\<close>

function call :: "nat \<Rightarrow> behaviour \<Rightarrow> jsval \<Rightarrow> jsval list \<Rightarrow> emitter \<Rightarrow> jsval outcome \<times> emitter"
and off :: "nat \<Rightarrow> behaviour \<Rightarrow> string \<Rightarrow> jsval \<Rightarrow> emitter \<Rightarrow> unit outcome \<times> emitter"
and forEach :: "nat \<Rightarrow> behaviour \<Rightarrow> jsval list \<Rightarrow> jsval list \<Rightarrow> emitter \<Rightarrow> unit outcome \<times> emitter"
where
  "call 0 \<beta> f args s = (Exhausted, s)"
| "call (Suc d) \<beta> f args s =
     (case as_limited f s of
        None \<Rightarrow> call_plain \<beta> f args s
      | Some (a, event, handler, remainingCalls) \<Rightarrow>
          (let s1 = s\<lparr>heap := (heap s)[a := Limited event handler (remainingCalls - 1)]\<rparr>
           in if remainingCalls - 1 = 0
              then (case off d \<beta> event f s1 of
                      (Returned u, s2) \<Rightarrow> call d \<beta> handler args s2
                    | (Thrown e, s2) \<Rightarrow> (Thrown e, s2)
                    | (Exhausted, s2) \<Rightarrow> (Exhausted, s2)
                    | (Unmodelled, s2) \<Rightarrow> (Unmodelled, s2))
              else call d \<beta> handler args s1))"
| "off d \<beta> event handler s =
     (case off_remove event handler s of
        Returned (removed, s1) \<Rightarrow>
          (if removed \<and> notifyRemoveListener s1
           then (case internalHandlers s1 ''removeListener'' of
                   Some handlers \<Rightarrow> forEach d \<beta> handlers [Str event, handler] s1
                 | None \<Rightarrow> (Returned (), s1))
           else (Returned (), s1))
      | Thrown e \<Rightarrow> (Thrown e, s)
      | Exhausted \<Rightarrow> (Exhausted, s)
      | Unmodelled \<Rightarrow> (Unmodelled, s))"
| "forEach d \<beta> [] args s = (Returned (), s)"
| "forEach d \<beta> (handler # handlers) args s =
     (case call d \<beta> handler args s of
        (Returned v, s1) \<Rightarrow> forEach d \<beta> handlers args s1
      | (Thrown e, s1) \<Rightarrow> (Thrown e, s1)
      | (Exhausted, s1) \<Rightarrow> (Exhausted, s1)
      | (Unmodelled, s1) \<Rightarrow> (Unmodelled, s1))"
  by pat_completeness auto
termination
  by (relation "inv_image (less_than <*lex*> less_than <*lex*> less_than)
        (\<lambda>x. case x of
           Inl (d, \<beta>, f, args, s) \<Rightarrow> (d, 0::nat, 0::nat)
         | Inr (Inl (d, \<beta>, event, handler, s)) \<Rightarrow> (d, 2, 0)
         | Inr (Inr (d, \<beta>, handlers, args, s)) \<Rightarrow> (d, 1, length handlers))")
     auto

text \<open>\<open>emitInternal\<close>: the handlers of an internal event, each called in turn.\<close>

definition emitInternal ::
  "nat \<Rightarrow> behaviour \<Rightarrow> string \<Rightarrow> jsval list \<Rightarrow> emitter \<Rightarrow> unit outcome \<times> emitter" where
  "emitInternal d \<beta> event args s =
     (case internalHandlers s event of
        Some handlers \<Rightarrow> forEach d \<beta> handlers args s
      | None \<Rightarrow> (Returned (), s))"

section \<open>Registration\<close>

text \<open>
  The storing part of \<open>on\<close>: the wildcard tree, or the flat registry. An assignment to
  \<open>this.eventHandlers[key]\<close> creates or changes the property of the registry itself,
  except for the key \<open>__proto__\<close>: there it runs the setter inherited from
  \<open>Object.prototype\<close>, which makes the assigned array the prototype of the registry, so
  that from then on the registry inherits from an array. The model does not follow
  that step.
\<close>

definition store_handler :: "string \<Rightarrow> jsval \<Rightarrow> emitter \<Rightarrow> emitter outcome" where
  "store_handler event preparedHandler s =
     (if supportsWildcards s then Returned (addToWildcardTree event preparedHandler s)
      else if event = ''__proto__'' then Unmodelled
      else
        (let currentHandlers = registry_get s event
         in if \<not> truthy currentHandlers
            then Returned (s\<lparr>eventHandlers := (eventHandlers s)(event := preparedHandler)\<rparr>)
            else (case currentHandlers of
                    Arr hs \<Rightarrow>
                      Returned (checkHandlerLimit event (int (length hs) + 1)
                        (s\<lparr>eventHandlers :=
                             (eventHandlers s)(event := Arr (hs @ [preparedHandler]))\<rparr>))
                  | _ \<Rightarrow>
                      Returned (checkHandlerLimit event 2
                        (s\<lparr>eventHandlers :=
                             (eventHandlers s)(event := Arr [currentHandlers, preparedHandler])\<rparr>)))))"

text \<open>
  \<open>on\<close> for one event name. The value returned (the emitter, or a handler reference
  when \<open>returnObject\<close> is set) is not modelled.
\<close>

definition on ::
  "nat \<Rightarrow> behaviour \<Rightarrow> string \<Rightarrow> jsval \<Rightarrow> handler_options \<Rightarrow> emitter \<Rightarrow> unit outcome \<times> emitter" where
  "on d \<beta> event handler options s =
     (case prepareHandler handler options s of
        Thrown e \<Rightarrow> (Thrown e, s)
      | Exhausted \<Rightarrow> (Exhausted, s)
      | Unmodelled \<Rightarrow> (Unmodelled, s)
      | Returned (preparedHandler, s0) \<Rightarrow>
          if event = ''newListener'' \<or> event = ''removeListener''
          then (Returned (),
                s0\<lparr>internalHandlers :=
                     (internalHandlers s0)(event \<mapsto> coalesce (internalHandlers s0 event) [] @ [handler])\<rparr>)
          else (case (if notifyNewListener s0
                      then emitInternal d \<beta> ''newListener'' [Str event, handler] s0
                      else (Returned (), s0)) of
                  (Returned u, s1) \<Rightarrow>
                    (case store_handler event preparedHandler s1 of
                       Returned s2 \<Rightarrow> (Returned (), s2)
                     | Thrown e \<Rightarrow> (Thrown e, s1)
                     | Exhausted \<Rightarrow> (Exhausted, s1)
                     | Unmodelled \<Rightarrow> (Unmodelled, s1))
                | (Thrown e, s1) \<Rightarrow> (Thrown e, s1)
                | (Exhausted, s1) \<Rightarrow> (Exhausted, s1)
                | (Unmodelled, s1) \<Rightarrow> (Unmodelled, s1)))"

definition limitedTimes ::
  "nat \<Rightarrow> behaviour \<Rightarrow> string \<Rightarrow> int \<Rightarrow> jsval \<Rightarrow> handler_options \<Rightarrow> emitter
     \<Rightarrow> unit outcome \<times> emitter" where
  "limitedTimes d \<beta> event times' handler options s =
     (if \<not> is_function handler then (Thrown (Err ''Handler must be a function''), s)
      else on d \<beta> event (Fn (Closure (length (heap s)))) options
             (s\<lparr>heap := heap s @ [Limited event handler times']\<rparr>))"

definition once ::
  "nat \<Rightarrow> behaviour \<Rightarrow> string \<Rightarrow> jsval \<Rightarrow> handler_options \<Rightarrow> emitter \<Rightarrow> unit outcome \<times> emitter" where
  "once d \<beta> event handler options s = limitedTimes d \<beta> event 1 handler options s"

section \<open>Emission\<close>

text \<open>
  \<open>handlers.forEach\<close> in flat mode runs over the array that is stored in the registry,
  which a handler that removes itself splices while the loop runs: the loop visits
  index \<open>k\<close> only if the array still has it. \<open>n\<close> counts the indices left of the
  length read when the loop started. An emptied array has left the registry.
\<close>

definition stored_array :: "emitter \<Rightarrow> string \<Rightarrow> jsval list" where
  "stored_array s event = (case registry_get s event of Arr hs \<Rightarrow> hs | _ \<Rightarrow> [])"

fun forEach_stored ::
  "nat \<Rightarrow> behaviour \<Rightarrow> string \<Rightarrow> jsval list \<Rightarrow> nat \<Rightarrow> nat \<Rightarrow> emitter \<Rightarrow> unit outcome \<times> emitter" where
  "forEach_stored d \<beta> event args k 0 s = (Returned (), s)"
| "forEach_stored d \<beta> event args k (Suc n) s =
     (if k < length (stored_array s event)
      then (case call d \<beta> (stored_array s event ! k) args s of
              (Returned v, s1) \<Rightarrow> forEach_stored d \<beta> event args (Suc k) n s1
            | (Thrown e, s1) \<Rightarrow> (Thrown e, s1)
            | (Exhausted, s1) \<Rightarrow> (Exhausted, s1)
            | (Unmodelled, s1) \<Rightarrow> (Unmodelled, s1))
      else forEach_stored d \<beta> event args (Suc k) n s)"

definition error_cause :: "jsval list \<Rightarrow> jsval" where
  "error_cause args =
     (case args of
        a # rest \<Rightarrow> (if instanceof_Error a then a else Err ''Uncaught, unspecified 'error' event.'')
      | [] \<Rightarrow> Err ''Uncaught, unspecified 'error' event.'')"

definition resolve_handlers :: "emitter \<Rightarrow> string \<Rightarrow> jsval" where
  "resolve_handlers s event =
     (if supportsWildcards s then Arr (findWildcardHandlers s (parseEventName s event))
      else registry_get s event)"

definition emit ::
  "nat \<Rightarrow> behaviour \<Rightarrow> string \<Rightarrow> jsval list \<Rightarrow> emitter \<Rightarrow> bool outcome \<times> emitter" where
  "emit d \<beta> event args s =
     (let handlers = resolve_handlers s event
      in if \<not> truthy handlers then
           (if event = ''error'' \<and> \<not> suppressErrors s then (Thrown (error_cause args), s)
            else (Returned False, s))
         else if is_function handlers then
           (case call d \<beta> handlers args s of
              (Returned v, s1) \<Rightarrow> (Returned True, s1)
            | (Thrown e, s1) \<Rightarrow> (Thrown e, s1)
            | (Exhausted, s1) \<Rightarrow> (Exhausted, s1)
            | (Unmodelled, s1) \<Rightarrow> (Unmodelled, s1))
         else (case handlers of
                 Arr hs \<Rightarrow>
                   (case (if supportsWildcards s then forEach d \<beta> hs args s
                          else forEach_stored d \<beta> event args 0 (length hs) s) of
                      (Returned u, s1) \<Rightarrow> (Returned True, s1)
                    | (Thrown e, s1) \<Rightarrow> (Thrown e, s1)
                    | (Exhausted, s1) \<Rightarrow> (Exhausted, s1)
                    | (Unmodelled, s1) \<Rightarrow> (Unmodelled, s1))
               | _ \<Rightarrow> (Thrown (TypeError ''handlers.forEach is not a function''), s)))"

text \<open>
  \<open>emitAsync\<close> is an \<open>async\<close> function: it returns a promise, rejected with whatever
  its body throws. \<open>PromiseAll vs\<close> is the promise \<open>Promise.all(vs)\<close> of the values the
  handlers returned (an index the array had lost when \<open>map\<close> reached it reads as
  \<open>undefined\<close>).
\<close>

datatype promise = Rejected jsval | PromiseAll "jsval list"

fun map_call ::
  "nat \<Rightarrow> behaviour \<Rightarrow> jsval list \<Rightarrow> jsval list \<Rightarrow> emitter \<Rightarrow> jsval list outcome \<times> emitter" where
  "map_call d \<beta> [] args s = (Returned [], s)"
| "map_call d \<beta> (handler # handlers) args s =
     (case call d \<beta> handler args s of
        (Returned v, s1) \<Rightarrow>
          (case map_call d \<beta> handlers args s1 of
             (Returned vs, s2) \<Rightarrow> (Returned (v # vs), s2)
           | (Thrown e, s2) \<Rightarrow> (Thrown e, s2)
           | (Exhausted, s2) \<Rightarrow> (Exhausted, s2)
           | (Unmodelled, s2) \<Rightarrow> (Unmodelled, s2))
      | (Thrown e, s1) \<Rightarrow> (Thrown e, s1)
      | (Exhausted, s1) \<Rightarrow> (Exhausted, s1)
      | (Unmodelled, s1) \<Rightarrow> (Unmodelled, s1))"

fun map_stored ::
  "nat \<Rightarrow> behaviour \<Rightarrow> string \<Rightarrow> jsval list \<Rightarrow> nat \<Rightarrow> nat \<Rightarrow> emitter
     \<Rightarrow> jsval list outcome \<times> emitter" where
  "map_stored d \<beta> event args k 0 s = (Returned [], s)"
| "map_stored d \<beta> event args k (Suc n) s =
     (case (if k < length (stored_array s event)
            then call d \<beta> (stored_array s event ! k) args s
            else (Returned Undefined, s)) of
        (Returned v, s1) \<Rightarrow>
          (case map_stored d \<beta> event args (Suc k) n s1 of
             (Returned vs, s2) \<Rightarrow> (Returned (v # vs), s2)
           | (Thrown e, s2) \<Rightarrow> (Thrown e, s2)
           | (Exhausted, s2) \<Rightarrow> (Exhausted, s2)
           | (Unmodelled, s2) \<Rightarrow> (Unmodelled, s2))
      | (Thrown e, s1) \<Rightarrow> (Thrown e, s1)
      | (Exhausted, s1) \<Rightarrow> (Exhausted, s1)
      | (Unmodelled, s1) \<Rightarrow> (Unmodelled, s1))"

definition emitAsync ::
  "nat \<Rightarrow> behaviour \<Rightarrow> string \<Rightarrow> jsval list \<Rightarrow> emitter \<Rightarrow> promise outcome \<times> emitter" where
  "emitAsync d \<beta> event args s =
     (let handlers = resolve_handlers s event
      in if \<not> truthy handlers then
           (if event = ''error'' \<and> \<not> suppressErrors s
            then (Returned (Rejected (error_cause args)), s)
            else (Returned (PromiseAll []), s))
         else (case (case handlers of
                       Arr hs \<Rightarrow>
                         (if supportsWildcards s then map_call d \<beta> hs args s
                          else map_stored d \<beta> event args 0 (length hs) s)
                     | _ \<Rightarrow> map_call d \<beta> [handlers] args s) of
                 (Returned vs, s1) \<Rightarrow> (Returned (PromiseAll vs), s1)
               | (Thrown e, s1) \<Rightarrow> (Returned (Rejected e), s1)
               | (Exhausted, s1) \<Rightarrow> (Exhausted, s1)
               | (Unmodelled, s1) \<Rightarrow> (Unmodelled, s1)))"

text \<open>A number of successive \<open>emit\<close> calls of one event, whatever each returns.\<close>

fun emits :: "nat \<Rightarrow> nat \<Rightarrow> behaviour \<Rightarrow> string \<Rightarrow> jsval list \<Rightarrow> emitter \<Rightarrow> emitter" where
  "emits 0 d \<beta> event args s = s"
| "emits (Suc m) d \<beta> event args s = emits m d \<beta> event args (snd (emit d \<beta> event args s))"

section \<open>The dispatch-style emitter of index.ts\<close>

text \<open>
  \<open>type_listeners\<close> holds the properties of the object \<open>listeners\<close> itself: the \<open>Set\<close>
  created for a type, here the list of its members in insertion order. A listener is one
  of the caller's functions, called with the type and the payload; \<open>heard\<close> records
  these calls and \<open>console_error\<close> what \<open>dispatch\<close> caught and logged.
\<close>

record dispatcher =
  type_listeners :: "string \<Rightarrow> nat list option"
  heard :: "(nat \<times> string \<times> jsval) list"
  console_error :: "jsval list"

type_synonym listener_behaviour = "nat \<Rightarrow> string \<Rightarrow> jsval \<Rightarrow> jsval option"

definition new_dispatcher :: dispatcher where
  "new_dispatcher = \<lparr>type_listeners = (\<lambda>t. None), heard = [], console_error = []\<rparr>"

text \<open>
  What \<open>this.listeners[type]\<close> reads: the \<open>Set\<close> of the type, \<open>undefined\<close>, or, for a
  name of \<open>Object.prototype\<close> without a \<open>Set\<close> of its own, the inherited value. That
  value is truthy, has no property \<open>add\<close> or \<open>delete\<close> and is not iterable.
\<close>

datatype slot = SetOf "nat list" | NoSet | InheritedValue

definition listeners_get :: "dispatcher \<Rightarrow> string \<Rightarrow> slot" where
  "listeners_get s type' =
     (case type_listeners s type' of
        Some ls \<Rightarrow> SetOf ls
      | None \<Rightarrow> if inherited_name type' then InheritedValue else NoSet)"

definition Set_add :: "'a \<Rightarrow> 'a list \<Rightarrow> 'a list" where
  "Set_add x xs = (if x \<in> set xs then xs else xs @ [x])"

definition Set_delete :: "'a \<Rightarrow> 'a list \<Rightarrow> 'a list" where
  "Set_delete x xs = filter (\<lambda>y. y \<noteq> x) xs"

text \<open>
  \<open>addEventListener\<close> creates the \<open>Set\<close> only where the read is falsy, then calls
  \<open>add\<close> on what the read gives; the value returned (\<open>this\<close>) is not modelled.
\<close>

definition addEventListener :: "string \<Rightarrow> nat \<Rightarrow> dispatcher \<Rightarrow> unit outcome \<times> dispatcher" where
  "addEventListener type' listener' s =
     (let s1 = (if listeners_get s type' = NoSet
                then s\<lparr>type_listeners := (type_listeners s)(type' \<mapsto> [])\<rparr>
                else s)
      in case listeners_get s1 type' of
           SetOf ls \<Rightarrow>
             (Returned (), s1\<lparr>type_listeners := (type_listeners s1)(type' \<mapsto> Set_add listener' ls)\<rparr>)
         | NoSet \<Rightarrow> (Thrown (TypeError ''Cannot read properties of undefined''), s1)
         | InheritedValue \<Rightarrow> (Thrown (TypeError ''this.listeners[type].add is not a function''), s1))"

text \<open>\<open>this.listeners[type]?.delete(listener)\<close>: only \<open>undefined\<close> ends the chain.\<close>

definition removeEventListener :: "string \<Rightarrow> nat \<Rightarrow> dispatcher \<Rightarrow> unit outcome \<times> dispatcher" where
  "removeEventListener type' listener' s =
     (case listeners_get s type' of
        NoSet \<Rightarrow> (Returned (), s)
      | SetOf ls \<Rightarrow>
          (Returned (), s\<lparr>type_listeners := (type_listeners s)(type' \<mapsto> Set_delete listener' ls)\<rparr>)
      | InheritedValue \<Rightarrow>
          (Thrown (TypeError ''this.listeners[type]?.delete is not a function''), s))"

text \<open>Calling a listener: the call is recorded, then the body returns or throws.\<close>

definition call_listener ::
  "listener_behaviour \<Rightarrow> nat \<Rightarrow> string \<Rightarrow> jsval \<Rightarrow> dispatcher \<Rightarrow> unit outcome \<times> dispatcher" where
  "call_listener \<beta> l type' payload s =
     (case \<beta> l type' payload of
        None \<Rightarrow> (Returned (), s\<lparr>heard := heard s @ [(l, type', payload)]\<rparr>)
      | Some e \<Rightarrow> (Thrown e, s\<lparr>heard := heard s @ [(l, type', payload)]\<rparr>))"

text \<open>The loop of \<open>dispatch\<close>, with its \<open>try\<close> and \<open>catch\<close> around each call.\<close>

fun dispatch_loop ::
  "listener_behaviour \<Rightarrow> nat list \<Rightarrow> string \<Rightarrow> jsval \<Rightarrow> dispatcher \<Rightarrow> unit outcome \<times> dispatcher" where
  "dispatch_loop \<beta> [] type' payload s = (Returned (), s)"
| "dispatch_loop \<beta> (l # ls) type' payload s =
     (case call_listener \<beta> l type' payload s of
        (Thrown error, s1) \<Rightarrow>
          dispatch_loop \<beta> ls type' payload (s1\<lparr>console_error := console_error s1 @ [error]\<rparr>)
      | (r, s1) \<Rightarrow> dispatch_loop \<beta> ls type' payload s1)"

text \<open>
  \<open>dispatch\<close> iterates over \<open>this.listeners[type] || new Set()\<close>; the \<open>for\<close> statement
  itself is outside the \<open>try\<close>, so what it throws when the value cannot be iterated
  leaves \<open>dispatch\<close>.
\<close>

definition dispatch ::
  "listener_behaviour \<Rightarrow> string \<Rightarrow> jsval \<Rightarrow> dispatcher \<Rightarrow> unit outcome \<times> dispatcher" where
  "dispatch \<beta> type' payload s =
     (case listeners_get s type' of
        SetOf ls \<Rightarrow> dispatch_loop \<beta> ls type' payload s
      | NoSet \<Rightarrow> dispatch_loop \<beta> [] type' payload s
      | InheritedValue \<Rightarrow> (Thrown (TypeError ''listeners is not iterable''), s))"

definition propagate ::
  "listener_behaviour \<Rightarrow> string \<Rightarrow> jsval \<Rightarrow> dispatcher \<Rightarrow> unit outcome \<times> dispatcher" where
  "propagate \<beta> type' payload s = dispatch \<beta> type' payload s"

section \<open>Notions used in the statements\<close>

text \<open>The two names \<open>on\<close> keeps apart from the registry and the tree.\<close>

definition internal_name :: "string \<Rightarrow> bool" where
  "internal_name event = (event = ''newListener'' \<or> event = ''removeListener'')"


text \<open>Registering does not notify: the setting is off, or nobody listens.\<close>

definition quiet_new :: "emitter \<Rightarrow> bool" where
  "quiet_new s = (\<not> notifyNewListener s \<or> internalHandlers s ''newListener'' = None)"

text \<open>Removing does not notify: the setting is off, or nobody listens.\<close>

definition quiet_remove :: "emitter \<Rightarrow> bool" where
  "quiet_remove s = (\<not> notifyRemoveListener s \<or> internalHandlers s ''removeListener'' = None)"

text \<open>
  What \<open>on\<close> gives once it has notified and turns to storing the handler in the
  emitter \<open>s'\<close>.
\<close>

definition stored :: "emitter outcome \<Rightarrow> emitter \<Rightarrow> unit outcome \<times> emitter" where
  "stored r s' =
     (case r of
        Returned s2 \<Rightarrow> (Returned (), s2)
      | Thrown e \<Rightarrow> (Thrown e, s')
      | Exhausted \<Rightarrow> (Exhausted, s')
      | Unmodelled \<Rightarrow> (Unmodelled, s'))"

text \<open>
  A new emitter in flat mode and one in wildcard mode with the default delimiter, with
  any other settings.
\<close>

definition new_flat :: "settings \<Rightarrow> emitter" where
  "new_flat st = new_EventEmitter (st\<lparr>useWildcards := None\<rparr>)"

definition new_wild :: "settings \<Rightarrow> emitter" where
  "new_wild st = new_EventEmitter (st\<lparr>useWildcards := Some True, namespaceDelimiter := None\<rparr>)"

text \<open>Functions of the caller that all return.\<close>

definition returns :: behaviour where
  "returns n args = None"

text \<open>
  For the dispatch-style emitter: the members of the \<open>Set\<close> of a type (none when the
  type has no \<open>Set\<close>), that they are the members of a \<open>Set\<close>, each held once,
  \<open>addEventListener\<close> called a number of times with the same arguments, and the calls
  a \<open>dispatch\<close> adds to those recorded before it.
\<close>

definition members :: "dispatcher \<Rightarrow> string \<Rightarrow> nat list" where
  "members s type' = (case type_listeners s type' of Some ls \<Rightarrow> ls | None \<Rightarrow> [])"

definition is_Set :: "dispatcher \<Rightarrow> string \<Rightarrow> bool" where
  "is_Set s type' = distinct (members s type')"

fun addEventListener_times :: "nat \<Rightarrow> string \<Rightarrow> nat \<Rightarrow> dispatcher \<Rightarrow> dispatcher" where
  "addEventListener_times 0 type' listener' s = s"
| "addEventListener_times (Suc n) type' listener' s =
     snd (addEventListener type' listener' (addEventListener_times n type' listener' s))"

definition heard_since :: "dispatcher \<Rightarrow> dispatcher \<Rightarrow> (nat \<times> string \<times> jsval) list" where
  "heard_since s s' = drop (length (heard s)) (heard s')"


definition user_fns :: "nat list \<Rightarrow> jsval list" where
  "user_fns ns = map (\<lambda>n. Fn (UserFn n)) ns"

text \<open>
  A value that \<open>addToWildcardTree\<close> stores as one handler: truthy and no array.
\<close>

definition handler_value :: "jsval \<Rightarrow> bool" where
  "handler_value h = (truthy h \<and> \<not> is_array h)"


text \<open>
  The handlers \<open>emit\<close> resolves for the event are the one value \<open>h\<close>: it is what the
  registry holds, or the only match in the tree.
\<close>

definition sole_handler :: "emitter \<Rightarrow> string \<Rightarrow> jsval \<Rightarrow> bool" where
  "sole_handler s event h =
     (if supportsWildcards s then findWildcardHandlers s (parseEventName s event) = [h]
      else registry_get s event = h)"

text \<open>No event name is mapped to an empty handler list.\<close>

definition no_empty_list :: "emitter \<Rightarrow> bool" where
  "no_empty_list s = (\<forall>k. registry_get s k \<noteq> Arr [])"








section \<open>Basic facts\<close>

lemma coalesce_simps [simp]: "coalesce None d = d" "coalesce (Some v) d = v"
  by (simp_all add: coalesce_def)

lemma child_empty_node [simp]: "child empty_node k = None"
  by (simp add: child_def empty_node_def)

lemma listeners_empty_node [simp]: "listeners empty_node = Undefined"
  by (simp add: empty_node_def)

lemma traverse_empty_node [simp]: "traverse parts empty_node deep = []"
  by (induction parts) (simp_all add: listeners_of_def)

lemma new_EventEmitter_simps [simp]:
  "eventHandlers (new_EventEmitter st) = (\<lambda>k. Undefined)"
  "internalHandlers (new_EventEmitter st) = (\<lambda>k. None)"
  "maxHandlersCount (new_EventEmitter st) = coalesce (maxHandlers st) 10"
  "wildcardTree (new_EventEmitter st) = empty_node"
  "supportsWildcards (new_EventEmitter st) = coalesce (useWildcards st) False"
  "delimiter (new_EventEmitter st) = coalesce (namespaceDelimiter st) ''.''"
  "notifyNewListener (new_EventEmitter st) = coalesce (emitNewListener st) False"
  "notifyRemoveListener (new_EventEmitter st) = coalesce (emitRemoveListener st) False"
  "detailedLeakWarnings (new_EventEmitter st) = coalesce (detailedLeakWarnings_setting st) False"
  "suppressErrors (new_EventEmitter st) = coalesce (suppressErrors_setting st) False"
  "heap (new_EventEmitter st) = []"
  "calls (new_EventEmitter st) = []"
  "console (new_EventEmitter st) = []"
  "scheduled (new_EventEmitter st) = []"
  by (simp_all add: new_EventEmitter_def)

lemma as_limited_simps [simp]:
  "as_limited (Fn (UserFn n)) s = None"
  "as_limited (Fn (AsyncFn n)) s = None"
  "as_limited Undefined s = None"
  "as_limited Null s = None"
  "as_limited (Num i) s = None"
  "as_limited (Str t) s = None"
  "as_limited (Err t) s = None"
  "as_limited PromiseObj s = None"
  "as_limited (Arr xs) s = None"
  by (simp_all add: as_limited_def)

lemma as_limited_Closure:
  "as_limited (Fn (Closure a)) s =
     (if a < length (heap s) then
        (case heap s ! a of Limited ev h r \<Rightarrow> Some (a, ev, h, r) | Prepared x y z \<Rightarrow> None)
      else None)"
  by (simp add: as_limited_def)

lemma call_UserFn [simp]:
  "call (Suc d) \<beta> (Fn (UserFn n)) args s =
     (case \<beta> n args of None \<Rightarrow> Returned Undefined | Some e \<Rightarrow> Thrown e,
      s\<lparr>calls := calls s @ [(UserFn n, args)]\<rparr>)"
  by (simp add: call_plain_def split: option.splits)

declare off.simps [simp del] call.simps(2) [simp del]

lemma call_AsyncFn [simp]:
  "call (Suc d) \<beta> (Fn (AsyncFn n)) args s =
     (Returned PromiseObj, s\<lparr>calls := calls s @ [(AsyncFn n, args)]\<rparr>)"
  by (simp add: call.simps call_plain_def)

lemma call_Closure:
  "a < length (heap s) \<Longrightarrow>
   call (Suc d) \<beta> (Fn (Closure a)) args s =
     (case heap s ! a of
        Limited ev h r \<Rightarrow>
          (if r - 1 = 0
           then (case off d \<beta> ev (Fn (Closure a)) (s\<lparr>heap := (heap s)[a := Limited ev h (r - 1)]\<rparr>) of
                   (Returned u, s2) \<Rightarrow> call d \<beta> h args s2
                 | (Thrown e, s2) \<Rightarrow> (Thrown e, s2)
                 | (Exhausted, s2) \<Rightarrow> (Exhausted, s2)
                 | (Unmodelled, s2) \<Rightarrow> (Unmodelled, s2))
           else call d \<beta> h args (s\<lparr>heap := (heap s)[a := Limited ev h (r - 1)]\<rparr>))
      | Prepared h p t \<Rightarrow>
          (if p then
             (if t then (Thrown (TypeError ''Promise.prototype.then called on undefined''), s)
              else (Returned PromiseObj, s\<lparr>scheduled := scheduled s @ [Task ImmediateQueue h args]\<rparr>))
           else (Returned Undefined,
                 s\<lparr>scheduled := scheduled s @
                     [Task (if t then NextTickQueue else ImmediateQueue) h args]\<rparr>)))"
  by (simp add: call.simps as_limited_Closure call_plain_def split: closure.splits)

lemma call_not_function:
  "\<not> is_function f \<Longrightarrow> call (Suc d) \<beta> f args s = (Thrown (TypeError ''not a function''), s)"
  by (cases f) (simp_all add: call.simps call_plain_def as_limited_def)

lemma prepareHandler_plain [simp]:
  "prepareHandler (Fn (UserFn n)) no_options s = Returned (Fn (UserFn n), s)"
  "prepareHandler (Fn (Closure a)) no_options s = Returned (Fn (Closure a), s)"
  "prepareHandler (Num i) no_options s = Returned (Num i, s)"
  by (simp_all add: prepareHandler_def no_options_def)

section \<open>Steps of the operations\<close>

lemma internal_name_simps [simp]:
  "internal_name ''newListener''" "internal_name ''removeListener''" "\<not> internal_name ''e''"
  by (simp_all add: internal_name_def)

lemma new_flat_simps [simp]:
  "eventHandlers (new_flat st) = (\<lambda>k. Undefined)"
  "internalHandlers (new_flat st) = (\<lambda>k. None)"
  "wildcardTree (new_flat st) = empty_node"
  "supportsWildcards (new_flat st) = False"
  "heap (new_flat st) = []"
  "calls (new_flat st) = []"
  "console (new_flat st) = []"
  "scheduled (new_flat st) = []"
  by (simp_all add: new_flat_def)

lemma new_wild_simps [simp]:
  "eventHandlers (new_wild st) = (\<lambda>k. Undefined)"
  "internalHandlers (new_wild st) = (\<lambda>k. None)"
  "wildcardTree (new_wild st) = empty_node"
  "supportsWildcards (new_wild st) = True"
  "delimiter (new_wild st) = ''.''"
  "heap (new_wild st) = []"
  "calls (new_wild st) = []"
  "console (new_wild st) = []"
  "scheduled (new_wild st) = []"
  by (simp_all add: new_wild_def)

lemma plain_names [simp]:
  "\<not> inherited_name ''e''" "\<not> inherited_name ''error''"
  "\<not> inherited_name ''newListener''" "\<not> inherited_name ''removeListener''"
  by (simp_all add: inherited_name_def Object_prototype_names_def)

lemma not_inherited_proto: "\<not> inherited_name event \<Longrightarrow> event \<noteq> ''__proto__''"
  by (auto simp add: inherited_name_def Object_prototype_names_def)

lemma registry_get_plain [simp]:
  "\<not> inherited_name event \<Longrightarrow> registry_get s event = eventHandlers s event"
  by (simp add: registry_get_def inherited_value_def)

lemma registry_get_own:
  "eventHandlers s event \<noteq> Undefined \<Longrightarrow> registry_get s event = eventHandlers s event"
  by (simp add: registry_get_def)

lemma registry_get_own_simps [simp]:
  "eventHandlers s event = Fn f \<Longrightarrow> registry_get s event = Fn f"
  "eventHandlers s event = Arr hs \<Longrightarrow> registry_get s event = Arr hs"
  "eventHandlers s event = Num i \<Longrightarrow> registry_get s event = Num i"
  by (simp_all add: registry_get_def)

lemma registry_get_fields [simp]:
  "registry_get (s\<lparr>heap := hp\<rparr>) = registry_get s"
  "registry_get (s\<lparr>calls := cs\<rparr>) = registry_get s"
  "registry_get (s\<lparr>console := co\<rparr>) = registry_get s"
  "registry_get (s\<lparr>scheduled := sc\<rparr>) = registry_get s"
  "registry_get (s\<lparr>wildcardTree := wt\<rparr>) = registry_get s"
  "registry_get (s\<lparr>internalHandlers := ih\<rparr>) = registry_get s"
  by (simp_all add: registry_get_def fun_eq_iff)

lemma quiet_new_fresh [simp]: "quiet_new (new_flat st)" "quiet_new (new_wild st)"
  by (simp_all add: quiet_new_def)

lemma quiet_new_updates [simp]:
  "quiet_new (s\<lparr>heap := hp\<rparr>) = quiet_new s"
  "quiet_new (s\<lparr>eventHandlers := eh\<rparr>) = quiet_new s"
  "quiet_new (s\<lparr>wildcardTree := wt\<rparr>) = quiet_new s"
  "quiet_new (s\<lparr>calls := cs\<rparr>) = quiet_new s"
  "quiet_new (s\<lparr>console := co\<rparr>) = quiet_new s"
  "quiet_new (s\<lparr>scheduled := sc\<rparr>) = quiet_new s"
  by (simp_all add: quiet_new_def)

lemma stored_Returned [simp]: "stored (Returned s2) s' = (Returned (), s2)"
  by (simp add: stored_def)

lemma on_quiet:
  "\<not> internal_name event \<Longrightarrow> prepareHandler h opts s = Returned (p, s') \<Longrightarrow> quiet_new s' \<Longrightarrow>
   on d \<beta> event h opts s = stored (store_handler event p s') s'"
  by (auto simp add: on_def emitInternal_def quiet_new_def internal_name_def stored_def)

lemma limitedTimes_quiet:
  "\<not> internal_name event \<Longrightarrow> quiet_new s \<Longrightarrow> is_function h \<Longrightarrow>
   limitedTimes d \<beta> event k h no_options s =
     stored (store_handler event (Fn (Closure (length (heap s))))
               (s\<lparr>heap := heap s @ [Limited event h k]\<rparr>))
       (s\<lparr>heap := heap s @ [Limited event h k]\<rparr>)"
  unfolding limitedTimes_def
  by (simp add: on_quiet[where p="Fn (Closure (length (heap s)))"
                           and s'="s\<lparr>heap := heap s @ [Limited event h k]\<rparr>"])

lemma store_handler_absent:
  "\<not> supportsWildcards s \<Longrightarrow> \<not> inherited_name event \<Longrightarrow> \<not> truthy (eventHandlers s event) \<Longrightarrow>
   store_handler event p s = Returned (s\<lparr>eventHandlers := (eventHandlers s)(event := p)\<rparr>)"
  by (simp add: store_handler_def not_inherited_proto)

lemma store_handler_single:
  "\<not> supportsWildcards s \<Longrightarrow> \<not> inherited_name event \<Longrightarrow> eventHandlers s event = Fn f \<Longrightarrow>
   store_handler event p s =
     Returned (checkHandlerLimit event 2
       (s\<lparr>eventHandlers := (eventHandlers s)(event := Arr [Fn f, p])\<rparr>))"
  by (simp add: store_handler_def not_inherited_proto)

lemma store_handler_array:
  "\<not> supportsWildcards s \<Longrightarrow> \<not> inherited_name event \<Longrightarrow> eventHandlers s event = Arr hs \<Longrightarrow>
   store_handler event p s =
     Returned (checkHandlerLimit event (int (length hs) + 1)
       (s\<lparr>eventHandlers := (eventHandlers s)(event := Arr (hs @ [p]))\<rparr>))"
  by (simp add: store_handler_def not_inherited_proto)

lemma store_handler_wild:
  "supportsWildcards s \<Longrightarrow> store_handler event p s = Returned (addToWildcardTree event p s)"
  by (simp add: store_handler_def)

lemma checkHandlerLimit_fields [simp]:
  "eventHandlers (checkHandlerLimit e c s) = eventHandlers s"
  "internalHandlers (checkHandlerLimit e c s) = internalHandlers s"
  "maxHandlersCount (checkHandlerLimit e c s) = maxHandlersCount s"
  "wildcardTree (checkHandlerLimit e c s) = wildcardTree s"
  "supportsWildcards (checkHandlerLimit e c s) = supportsWildcards s"
  "delimiter (checkHandlerLimit e c s) = delimiter s"
  "notifyNewListener (checkHandlerLimit e c s) = notifyNewListener s"
  "notifyRemoveListener (checkHandlerLimit e c s) = notifyRemoveListener s"
  "detailedLeakWarnings (checkHandlerLimit e c s) = detailedLeakWarnings s"
  "suppressErrors (checkHandlerLimit e c s) = suppressErrors s"
  "heap (checkHandlerLimit e c s) = heap s"
  "calls (checkHandlerLimit e c s) = calls s"
  "scheduled (checkHandlerLimit e c s) = scheduled s"
  by (simp_all add: checkHandlerLimit_def)

lemma off_remove_single:
  "\<not> supportsWildcards s \<Longrightarrow> eventHandlers s event = Fn f \<Longrightarrow>
   off_remove event h s =
     (if h = Fn f \<or> h = Undefined
      then Returned (True, s\<lparr>eventHandlers := (eventHandlers s)(event := Undefined)\<rparr>)
      else Returned (False, s))"
  by (auto simp add: off_remove_def listener_def)

lemma off_flat_single_other:
  "\<not> supportsWildcards s \<Longrightarrow> eventHandlers s event = Fn f \<Longrightarrow> h \<noteq> Fn f \<Longrightarrow> h \<noteq> Undefined \<Longrightarrow>
   off d \<beta> event h s = (Returned (), s)"
  by (simp add: off.simps off_remove_single)

lemma off_flat_single_same:
  "\<not> supportsWildcards s \<Longrightarrow> eventHandlers s event = Fn f \<Longrightarrow>
   \<not> notifyRemoveListener s \<or> internalHandlers s ''removeListener'' = None \<Longrightarrow>
   off d \<beta> event (Fn f) s = (Returned (), s\<lparr>eventHandlers := (eventHandlers s)(event := Undefined)\<rparr>)"
  by (auto simp add: off.simps off_remove_single)

lemma emit_single:
  "\<not> supportsWildcards s \<Longrightarrow> eventHandlers s event = Fn f \<Longrightarrow>
   emit d \<beta> event args s =
     (case call d \<beta> (Fn f) args s of
        (Returned v, s1) \<Rightarrow> (Returned True, s1)
      | (Thrown e, s1) \<Rightarrow> (Thrown e, s1)
      | (Exhausted, s1) \<Rightarrow> (Exhausted, s1)
      | (Unmodelled, s1) \<Rightarrow> (Unmodelled, s1))"
  by (simp add: emit_def resolve_handlers_def)

lemma off_matches_functions:
  "list_all (\<lambda>m. \<not> nullish m) ms \<Longrightarrow> off_matches ms = Returned ()"
  by (induction ms) (simp_all add: off_match_def)

lemma quiet_remove_fresh [simp]: "quiet_remove (new_flat st)" "quiet_remove (new_wild st)"
  by (simp_all add: quiet_remove_def)

lemma quiet_remove_updates [simp]:
  "quiet_remove (s\<lparr>heap := hp\<rparr>) = quiet_remove s"
  "quiet_remove (s\<lparr>eventHandlers := eh\<rparr>) = quiet_remove s"
  "quiet_remove (s\<lparr>wildcardTree := wt\<rparr>) = quiet_remove s"
  "quiet_remove (s\<lparr>calls := cs\<rparr>) = quiet_remove s"
  "quiet_remove (s\<lparr>console := co\<rparr>) = quiet_remove s"
  "quiet_remove (s\<lparr>scheduled := sc\<rparr>) = quiet_remove s"
  "quiet_remove (checkHandlerLimit e c s) = quiet_remove s"
  by (simp_all add: quiet_remove_def)

lemma quiet_new_checkHandlerLimit [simp]: "quiet_new (checkHandlerLimit e c s) = quiet_new s"
  by (simp add: quiet_new_def)

lemma off_flat_array:
  "\<not> supportsWildcards s \<Longrightarrow> eventHandlers s event = Arr hs \<Longrightarrow> quiet_remove s \<Longrightarrow>
   off d \<beta> event h s =
     (case findIndex h hs of
        Returned (Some i) \<Rightarrow>
          (Returned (),
           s\<lparr>eventHandlers := (eventHandlers s)
               (event := (if splice1 i hs = [] then Undefined else Arr (splice1 i hs)))\<rparr>)
      | Returned None \<Rightarrow> (Returned (), s)
      | Thrown e \<Rightarrow> (Thrown e, s)
      | Exhausted \<Rightarrow> (Exhausted, s)
      | Unmodelled \<Rightarrow> (Unmodelled, s))"
  by (auto simp add: off.simps off_remove_def quiet_remove_def Let_def split: outcome.splits option.splits)

lemma off_wild:
  "supportsWildcards s \<Longrightarrow>
   list_all (\<lambda>m. \<not> nullish m) (findWildcardHandlers s (parseEventName s event)) \<Longrightarrow>
   off d \<beta> event h s = (Returned (), s)"
  by (simp add: off.simps off_remove_def off_matches_functions)

lemma emit_wild:
  "supportsWildcards s \<Longrightarrow>
   emit d \<beta> event args s =
     (case forEach d \<beta> (findWildcardHandlers s (parseEventName s event)) args s of
        (Returned u, s1) \<Rightarrow> (Returned True, s1)
      | (Thrown e, s1) \<Rightarrow> (Thrown e, s1)
      | (Exhausted, s1) \<Rightarrow> (Exhausted, s1)
      | (Unmodelled, s1) \<Rightarrow> (Unmodelled, s1))"
  by (simp add: emit_def resolve_handlers_def)

lemma emit_array:
  "\<not> supportsWildcards s \<Longrightarrow> eventHandlers s event = Arr hs \<Longrightarrow>
   emit d \<beta> event args s =
     (case forEach_stored d \<beta> event args 0 (length hs) s of
        (Returned u, s1) \<Rightarrow> (Returned True, s1)
      | (Thrown e, s1) \<Rightarrow> (Thrown e, s1)
      | (Exhausted, s1) \<Rightarrow> (Exhausted, s1)
      | (Unmodelled, s1) \<Rightarrow> (Unmodelled, s1))"
  by (simp add: emit_def resolve_handlers_def)

lemmas tree_eval = addToWildcardTree_def parseEventName_def js_split_def add_listener_def
  child_def empty_node_def findWildcardHandlers_def listeners_of_def

section \<open>The reserved error event\<close>

text \<open>
  In flat mode an \<open>error\<close> event without a handler throws its cause, or returns false
  when errors are suppressed; \<open>emitAsync\<close> rejects or resolves accordingly.
\<close>

lemma emit_error_flat:
  "\<not> supportsWildcards s \<Longrightarrow> \<not> truthy (eventHandlers s ''error'') \<Longrightarrow>
   emit d \<beta> ''error'' args s =
     (if suppressErrors s then Returned False else Thrown (error_cause args), s)"
  by (simp add: emit_def resolve_handlers_def)

lemma emitAsync_error_flat:
  "\<not> supportsWildcards s \<Longrightarrow> \<not> truthy (eventHandlers s ''error'') \<Longrightarrow>
   emitAsync d \<beta> ''error'' args s =
     (Returned (if suppressErrors s then PromiseAll [] else Rejected (error_cause args)), s)"
  by (simp add: emitAsync_def resolve_handlers_def)

text \<open>
  Claim C1. With wildcards enabled the claim fails: \<open>findWildcardHandlers\<close> returns an
  array, and an empty array is truthy, so the test \<open>!handlers\<close> never holds. On a new
  wildcard emitter of any other settings, \<open>emit\<close> of \<open>error\<close> with any arguments runs
  over no handlers and returns true instead of throwing (and instead of returning false
  under \<open>suppressErrors\<close>), and \<open>emitAsync\<close> resolves instead of rejecting.
\<close>

theorem error_event_unhandled_wildcard:
  "emit d \<beta> ''error'' args (new_EventEmitter (st\<lparr>useWildcards := Some True\<rparr>))
     = (Returned True, new_EventEmitter (st\<lparr>useWildcards := Some True\<rparr>))
   \<and> emitAsync d \<beta> ''error'' args (new_EventEmitter (st\<lparr>useWildcards := Some True\<rparr>))
     = (Returned (PromiseAll []), new_EventEmitter (st\<lparr>useWildcards := Some True\<rparr>))"
  by (simp add: emit_def emitAsync_def resolve_handlers_def findWildcardHandlers_def)

section \<open>Counting wrappers\<close>

text \<open>
  In flat mode, a handler registered alone for its event with a count \<open>k \<ge> 1\<close> is
  called by each of the first \<open>k\<close> \<open>emit\<close> calls and not by the next one.
\<close>

lemma emit_counting_step:
  assumes "\<not> supportsWildcards s" "eventHandlers s event = Fn (Closure a)" "a < length (heap s)"
    "heap s ! a = Limited event (Fn (UserFn n)) r" "r \<noteq> 1"
  shows "snd (emit (Suc (Suc d)) \<beta> event args s)
     = s\<lparr>heap := (heap s)[a := Limited event (Fn (UserFn n)) (r - 1)],
         calls := calls s @ [(UserFn n, args)]\<rparr>"
  using assms
  by (simp add: emit_single[where f="Closure a"] call_Closure split: option.splits)

lemma emit_last_step:
  assumes "\<not> supportsWildcards s" "eventHandlers s event = Fn (Closure a)" "a < length (heap s)"
    "heap s ! a = Limited event (Fn (UserFn n)) 1" "quiet_remove s"
  shows "snd (emit (Suc (Suc d)) \<beta> event args s)
     = s\<lparr>heap := (heap s)[a := Limited event (Fn (UserFn n)) 0],
         eventHandlers := (eventHandlers s)(event := Undefined),
         calls := calls s @ [(UserFn n, args)]\<rparr>"
  using assms
  by (simp add: emit_single[where f="Closure a"] call_Closure off_flat_single_same
      quiet_remove_def split: option.splits)

lemma emit_no_handler:
  "\<not> supportsWildcards s \<Longrightarrow> \<not> inherited_name event \<Longrightarrow> \<not> truthy (eventHandlers s event) \<Longrightarrow>
   snd (emit d \<beta> event args s) = s"
  by (simp add: emit_def resolve_handlers_def)

lemma emits_counting:
  "\<not> supportsWildcards s \<Longrightarrow> eventHandlers s event = Fn (Closure a) \<Longrightarrow> a < length (heap s) \<Longrightarrow>
   heap s ! a = Limited event (Fn (UserFn n)) r \<Longrightarrow> int m < r \<Longrightarrow>
   emits m (Suc (Suc d)) \<beta> event args s
     = s\<lparr>heap := (heap s)[a := Limited event (Fn (UserFn n)) (r - int m)],
         calls := calls s @ replicate m (UserFn n, args)\<rparr>"
proof (induction m arbitrary: s r)
  case 0
  have "(heap s)[a := Limited event (Fn (UserFn n)) r] = heap s"
    using 0(4) list_update_id[of "heap s" a] by simp
  then show ?case by simp
next
  case (Suc m)
  let ?s1 = "s\<lparr>heap := (heap s)[a := Limited event (Fn (UserFn n)) (r - 1)],
         calls := calls s @ [(UserFn n, args)]\<rparr>"
  have r1: "r \<noteq> 1" using Suc.prems(5) by simp
  have e: "snd (emit (Suc (Suc d)) \<beta> event args s) = ?s1"
    using Suc.prems r1 by (simp add: emit_counting_step)
  have "emits m (Suc (Suc d)) \<beta> event args ?s1
     = ?s1\<lparr>heap := (heap ?s1)[a := Limited event (Fn (UserFn n)) (r - 1 - int m)],
         calls := calls ?s1 @ replicate m (UserFn n, args)\<rparr>"
    using Suc.prems by (intro Suc.IH) simp_all
  then show ?case
    by (simp add: e replicate_app_Cons_same algebra_simps)
qed

lemma emits_append:
  "emits (m + m') d \<beta> event args s = emits m' d \<beta> event args (emits m d \<beta> event args s)"
  by (induction m arbitrary: s) simp_all

lemma limitedTimes_flat_alone:
  assumes "1 \<le> k" "\<not> internal_name event" "\<not> supportsWildcards s" "quiet_new s"
    "quiet_remove s" "\<not> truthy (eventHandlers s event)" "\<not> inherited_name event"
  shows "calls (emits (Suc (nat k)) (Suc (Suc d)) \<beta> event args
            (snd (limitedTimes d' \<beta> event k (Fn (UserFn n)) no_options s)))
         = calls s @ replicate (nat k) (UserFn n, args)"
proof -
  let ?a = "length (heap s)"
  let ?s1 = "s\<lparr>heap := heap s @ [Limited event (Fn (UserFn n)) k],
      eventHandlers := (eventHandlers s)(event := Fn (Closure ?a))\<rparr>"
  have s1: "snd (limitedTimes d' \<beta> event k (Fn (UserFn n)) no_options s) = ?s1"
    using assms by (simp add: limitedTimes_quiet store_handler_absent)
  obtain j where j: "nat k = Suc j" using assms(1) by (cases "nat k") simp_all
  then have kj: "k = int j + 1" using assms(1) by linarith
  let ?s2 = "?s1\<lparr>heap := (heap ?s1)[?a := Limited event (Fn (UserFn n)) (k - int j)],
         calls := calls ?s1 @ replicate j (UserFn n, args)\<rparr>"
  have e1: "emits j (Suc (Suc d)) \<beta> event args ?s1 = ?s2"
    using assms(3) kj by (intro emits_counting) simp_all
  let ?s3 = "?s2\<lparr>heap := (heap ?s2)[?a := Limited event (Fn (UserFn n)) 0],
         eventHandlers := (eventHandlers ?s2)(event := Undefined),
         calls := calls ?s2 @ [(UserFn n, args)]\<rparr>"
  have e2: "snd (emit (Suc (Suc d)) \<beta> event args ?s2) = ?s3"
    using assms(3,5) kj by (intro emit_last_step) simp_all
  have e3: "snd (emit (Suc (Suc d)) \<beta> event args ?s3) = ?s3"
    using assms(3,7) by (intro emit_no_handler) simp_all
  have "emits (Suc (nat k)) (Suc (Suc d)) \<beta> event args ?s1
     = emits (Suc (Suc 0)) (Suc (Suc d)) \<beta> event args (emits j (Suc (Suc d)) \<beta> event args ?s1)"
    using emits_append[of j "Suc (Suc 0)"] j by simp
  also have "\<dots> = ?s3" unfolding e1 by (simp only: emits.simps e2 e3)
  finally show ?thesis unfolding s1 by (simp add: j replicate_append_same)
qed

text \<open>
  Claim C4. The claim fails in two ways. First, with wildcards enabled \<open>off\<close> looks
  for a \<open>_listeners\<close> property on each handler that \<open>findWildcardHandlers\<close> returned,
  finds none and removes nothing: after \<open>once\<close> on a new wildcard emitter, two
  \<open>emit\<close> calls run the handler twice. Second, in flat mode a wrapper that removes
  itself splices the array \<open>forEach\<close> is running over, and the handler after it is
  skipped: with a handler limited to 2, then two \<open>once\<close> handlers on one event, two
  \<open>emit\<close> calls never run the last handler.
\<close>

theorem once_runs_twice_or_never:
  "calls (emits (Suc (Suc 0)) (Suc (Suc d)) \<beta> ''e'' args
     (snd (once d' \<beta> ''e'' (Fn (UserFn n)) no_options (new_wild st))))
   = [(UserFn n, args), (UserFn n, args)]
   \<and> calls (emits (Suc (Suc 0)) (Suc (Suc d)) returns ''e'' args
     (snd (once d3 returns ''e'' (Fn (UserFn 2)) no_options
       (snd (once d2 returns ''e'' (Fn (UserFn 1)) no_options
         (snd (limitedTimes d1 returns ''e'' 2 (Fn (UserFn 0)) no_options (new_flat st))))))))
   = [(UserFn 0, args), (UserFn 1, args), (UserFn 0, args)]"
proof
  show "calls (emits (Suc (Suc 0)) (Suc (Suc d)) \<beta> ''e'' args
     (snd (once d' \<beta> ''e'' (Fn (UserFn n)) no_options (new_wild st))))
   = [(UserFn n, args), (UserFn n, args)]"
    by (simp add: once_def limitedTimes_quiet store_handler_wild tree_eval emit_wild
        call_Closure off_wild split: option.splits)
  show "calls (emits (Suc (Suc 0)) (Suc (Suc d)) returns ''e'' args
     (snd (once d3 returns ''e'' (Fn (UserFn 2)) no_options
       (snd (once d2 returns ''e'' (Fn (UserFn 1)) no_options
         (snd (limitedTimes d1 returns ''e'' 2 (Fn (UserFn 0)) no_options (new_flat st))))))))
   = [(UserFn 0, args), (UserFn 1, args), (UserFn 0, args)]"
    by (simp add: once_def limitedTimes_quiet store_handler_absent store_handler_single
        store_handler_array emit_array stored_array_def call_Closure off_flat_array
        listener_def splice1_def returns_def)
qed

section \<open>Removal by the original handler\<close>

text \<open>
  Claim C5. The claim fails: neither \<open>limitedTimes\<close> nor \<open>prepareHandler\<close> sets the
  \<open>listener\<close> property that \<open>off\<close> compares, so \<open>off\<close> with the original handler
  finds nothing. After \<open>once(e, H)\<close> and \<open>off(e, H)\<close> on a new flat emitter, \<open>emit\<close>
  still runs \<open>H\<close>; after \<open>on(e, H, {runAsync: true})\<close> and \<open>off(e, H)\<close>, \<open>emit\<close> still
  schedules \<open>H\<close>.
\<close>

theorem off_by_original_misses_wrapper:
  "calls (snd (emit (Suc (Suc d)) \<beta> ''e'' args
     (snd (off d' \<beta> ''e'' (Fn (UserFn n))
       (snd (once d'' \<beta> ''e'' (Fn (UserFn n)) no_options (new_flat st)))))))
   = [(UserFn n, args)]
  \<and> scheduled (snd (emit (Suc d) \<beta> ''e'' args
     (snd (off d' \<beta> ''e'' (Fn (UserFn n))
       (snd (on d'' \<beta> ''e'' (Fn (UserFn n)) (no_options\<lparr>runAsync := Some True\<rparr>) (new_flat st)))))))
   = [Task ImmediateQueue (Fn (UserFn n)) args]"
proof -
  have p: "prepareHandler (Fn (UserFn n)) (no_options\<lparr>runAsync := Some True\<rparr>) (new_flat st)
     = Returned (Fn (Closure 0), (new_flat st)\<lparr>heap := [Prepared (Fn (UserFn n)) False False]\<rparr>)"
    by (simp add: prepareHandler_def no_options_def)
  show ?thesis
    by (simp add: once_def limitedTimes_quiet store_handler_absent on_quiet[OF _ p]
      off_flat_single_other emit_single call_Closure off_flat_single_same split: option.splits)
qed

section \<open>Values that cannot be called\<close>

text \<open>\<open>limitedTimes\<close> and \<open>once\<close> reject every value that is not a function.\<close>

lemma limitedTimes_rejects_non_callable:
  "\<not> is_function x \<Longrightarrow>
   limitedTimes d \<beta> event k x options s = (Thrown (Err ''Handler must be a function''), s)"
  by (simp add: limitedTimes_def)

lemma once_rejects_non_callable:
  "\<not> is_function x \<Longrightarrow>
   once d \<beta> event x options s = (Thrown (Err ''Handler must be a function''), s)"
  by (simp add: once_def limitedTimes_def)

text \<open>
  Claim C6. The claim fails for \<open>on\<close>, which has no such test: on a new flat emitter
  \<open>on(e, 42)\<close> returns and stores the number as the handler of \<open>e\<close>.
\<close>

theorem on_stores_non_callable:
  "on d \<beta> ''e'' (Num 42) no_options (new_flat st)
     = (Returned (), (new_flat st)\<lparr>eventHandlers := (\<lambda>k. Undefined)(''e'' := Num 42)\<rparr>)"
  by (simp add: on_quiet[where p="Num 42" and s'="new_flat st"] store_handler_absent)

section \<open>The dispatch-style emitter\<close>

lemma listeners_get_plain:
  "\<not> inherited_name t \<Longrightarrow>
   listeners_get s t = (case type_listeners s t of Some ls \<Rightarrow> SetOf ls | None \<Rightarrow> NoSet)"
  by (simp add: listeners_get_def split: option.splits)

lemma listeners_get_member:
  "l \<in> set (members s t) \<Longrightarrow> listeners_get s t = SetOf (members s t)"
  by (cases "type_listeners s t") (simp_all add: listeners_get_def members_def)

lemma addEventListener_plain:
  "\<not> inherited_name t \<Longrightarrow>
   addEventListener t l s
     = (Returned (), s\<lparr>type_listeners := (type_listeners s)(t \<mapsto> Set_add l (members s t))\<rparr>)"
  by (cases "type_listeners s t")
     (simp_all add: addEventListener_def listeners_get_def members_def)

lemma Set_add_idem [simp]: "Set_add l (Set_add l xs) = Set_add l xs"
  by (simp add: Set_add_def)

lemma addEventListener_times_plain:
  "\<not> inherited_name t \<Longrightarrow>
   addEventListener_times (Suc n) t l s
     = s\<lparr>type_listeners := (type_listeners s)(t \<mapsto> Set_add l (members s t))\<rparr>"
proof (induction n)
  case 0
  show ?case
    unfolding addEventListener_times.simps addEventListener_plain[OF 0] by (simp only: snd_conv)
next
  case (Suc n)
  have "addEventListener_times (Suc (Suc n)) t l s
      = snd (addEventListener t l (addEventListener_times (Suc n) t l s))"
    by simp
  also have "\<dots> = s\<lparr>type_listeners := (type_listeners s)(t \<mapsto> Set_add l (members s t))\<rparr>"
    unfolding Suc.IH[OF Suc.prems] addEventListener_plain[OF Suc.prems]
    by (simp only: snd_conv) (auto simp add: members_def fun_eq_iff)
  finally show ?case .
qed

lemma count_Set_add: "distinct xs \<Longrightarrow> count_list (Set_add l xs) l = 1"
  by (induction xs) (auto simp add: Set_add_def split: if_splits)

lemma dispatch_loop_result:
  "dispatch_loop \<beta> ls t p s =
     (Returned (),
      s\<lparr>heard := heard s @ map (\<lambda>l. (l, t, p)) ls,
        console_error := console_error s @ List.map_filter (\<lambda>l. \<beta> l t p) ls\<rparr>)"
proof (induction ls arbitrary: s)
  case Nil then show ?case by simp
next
  case (Cons l ls)
  show ?case
    by (cases "\<beta> l t p") (simp_all add: call_listener_def Cons.IH List.map_filter_simps)
qed

lemma dispatch_result:
  "listeners_get s t \<noteq> InheritedValue \<Longrightarrow>
   dispatch \<beta> t p s =
     (Returned (),
      s\<lparr>heard := heard s @ map (\<lambda>l. (l, t, p)) (members s t),
        console_error := console_error s @ List.map_filter (\<lambda>l. \<beta> l t p) (members s t)\<rparr>)"
  by (cases "type_listeners s t")
     (simp_all add: dispatch_def listeners_get_def dispatch_loop_result members_def
        split: if_splits)

lemma removeEventListener_plain:
  "listeners_get s t \<noteq> InheritedValue \<Longrightarrow>
   fst (removeEventListener t l s) = Returned ()
   \<and> members (snd (removeEventListener t l s)) t = Set_delete l (members s t)
   \<and> heard (snd (removeEventListener t l s)) = heard s
   \<and> listeners_get (snd (removeEventListener t l s)) t \<noteq> InheritedValue"
  by (cases "type_listeners s t")
     (simp_all add: removeEventListener_def listeners_get_def members_def Set_delete_def
        split: if_splits)

lemma calls_of_listener:
  "length (filter (\<lambda>c. fst c = l) (map (\<lambda>x. (x, t, p)) ms)) = count_list ms l"
  by (induction ms) simp_all

text \<open>
  For a name of \<open>Object.prototype\<close> no \<open>Set\<close> is ever created: \<open>addEventListener\<close>
  throws and stores nothing, and \<open>dispatch\<close> throws too.
\<close>

theorem addEventListener_inherited_type:
  "addEventListener ''toString'' 7 new_dispatcher
     = (Thrown (TypeError ''this.listeners[type].add is not a function''), new_dispatcher)
   \<and> members (addEventListener_times 3 ''toString'' 7 new_dispatcher) ''toString'' = []
   \<and> dispatch (\<lambda>l t p. None) ''toString'' (Num 42)
        (addEventListener_times 3 ''toString'' 7 new_dispatcher)
     = (Thrown (TypeError ''listeners is not iterable''), new_dispatcher)"
  by (simp add: addEventListener_def listeners_get_def inherited_name_def
      Object_prototype_names_def new_dispatcher_def members_def dispatch_def numeral_3_eq_3)

text \<open>
  Claim C10, for a type that is no property name of \<open>Object.prototype\<close>. Let the
  listeners of the type \<open>t\<close> be the members of a \<open>Set\<close>, and let
  \<open>addEventListener(t, l)\<close> be called \<open>n \<ge> 1\<close> times. Every such call returns. Then the
  \<open>Set\<close> of \<open>t\<close> is the one a single call gives and holds \<open>l\<close> once; \<open>dispatch(t, p)\<close>
  returns and calls exactly the members, each once, with \<open>t\<close> and \<open>p\<close>, so \<open>l\<close> exactly
  once; and after one \<open>removeEventListener(t, l)\<close>, which returns, the listener \<open>l\<close> is
  no member, and \<open>dispatch(t, p)\<close> returns without a call of \<open>l\<close>.
\<close>

theorem addEventListener_idempotent:
  "\<not> inherited_name t \<Longrightarrow> is_Set s t \<Longrightarrow> 0 < n \<Longrightarrow>
   fst (addEventListener t l (addEventListener_times k t l s)) = Returned ()
   \<and> members (addEventListener_times n t l s) t = Set_add l (members s t)
   \<and> count_list (members (addEventListener_times n t l s) t) l = 1
   \<and> fst (dispatch \<beta> t p (addEventListener_times n t l s)) = Returned ()
   \<and> heard_since (addEventListener_times n t l s)
         (snd (dispatch \<beta> t p (addEventListener_times n t l s)))
       = map (\<lambda>x. (x, t, p)) (members (addEventListener_times n t l s) t)
   \<and> length (filter (\<lambda>c. fst c = l)
         (heard_since (addEventListener_times n t l s)
            (snd (dispatch \<beta> t p (addEventListener_times n t l s))))) = 1
   \<and> fst (removeEventListener t l (addEventListener_times n t l s)) = Returned ()
   \<and> l \<notin> set (members (snd (removeEventListener t l (addEventListener_times n t l s))) t)
   \<and> fst (dispatch \<beta> t p (snd (removeEventListener t l (addEventListener_times n t l s))))
       = Returned ()
   \<and> length (filter (\<lambda>c. fst c = l)
         (heard_since (snd (removeEventListener t l (addEventListener_times n t l s)))
            (snd (dispatch \<beta> t p
               (snd (removeEventListener t l (addEventListener_times n t l s))))))) = 0"
proof -
  assume t: "\<not> inherited_name t" and set: "is_Set s t" and n: "0 < n"
  let ?s' = "addEventListener_times n t l s"
  let ?r = "snd (removeEventListener t l ?s')"
  obtain m where m: "n = Suc m" using n by (cases n) simp_all
  have s': "?s' = s\<lparr>type_listeners := (type_listeners s)(t \<mapsto> Set_add l (members s t))\<rparr>"
    unfolding m by (rule addEventListener_times_plain[OF t])
  have mem: "members ?s' t = Set_add l (members s t)"
    unfolding s' by (simp add: members_def)
  have cnt: "count_list (members ?s' t) l = 1"
    unfolding mem using set by (simp add: count_Set_add is_Set_def)
  have g: "listeners_get ?s' t \<noteq> InheritedValue"
    using t by (simp add: listeners_get_plain split: option.splits)
  note rem = removeEventListener_plain[OF g, of l]
  have memr: "members ?r t = Set_delete l (members ?s' t)" using rem by simp
  have gr: "listeners_get ?r t \<noteq> InheritedValue" using rem by simp
  have c1: "fst (addEventListener t l (addEventListener_times k t l s)) = Returned ()"
    by (simp add: addEventListener_plain[OF t])
  have c4: "fst (dispatch \<beta> t p ?s') = Returned ()"
    by (simp add: dispatch_result[OF g])
  have c5: "heard_since ?s' (snd (dispatch \<beta> t p ?s')) = map (\<lambda>x. (x, t, p)) (members ?s' t)"
    by (simp add: dispatch_result[OF g] heard_since_def)
  have c6: "length (filter (\<lambda>c. fst c = l) (heard_since ?s' (snd (dispatch \<beta> t p ?s')))) = 1"
    unfolding c5 calls_of_listener by (rule cnt)
  have c8: "l \<notin> set (members ?r t)"
    unfolding memr by (simp add: Set_delete_def)
  have c9: "fst (dispatch \<beta> t p ?r) = Returned ()"
    by (simp add: dispatch_result[OF gr])
  have c10h: "heard_since ?r (snd (dispatch \<beta> t p ?r)) = map (\<lambda>x. (x, t, p)) (members ?r t)"
    by (simp add: dispatch_result[OF gr] heard_since_def)
  have c10: "length (filter (\<lambda>c. fst c = l) (heard_since ?r (snd (dispatch \<beta> t p ?r)))) = 0"
    unfolding c10h calls_of_listener using c8 by (simp add: count_list_0_iff)
  show ?thesis
    using c1 mem cnt c4 c5 c6 rem c8 c9 c10 by simp
qed

theorem addEventListener_idempotent_witness:
  "\<not> inherited_name ''eventA'' \<and> is_Set new_dispatcher ''eventA'' \<and> (0::nat) < 3
   \<and> fst (addEventListener ''eventA'' 7 (addEventListener_times 2 ''eventA'' 7 new_dispatcher))
       = Returned ()
   \<and> members (addEventListener_times 3 ''eventA'' 7 new_dispatcher) ''eventA'' = [7]
   \<and> count_list (members (addEventListener_times 3 ''eventA'' 7 new_dispatcher) ''eventA'') 7 = 1
   \<and> heard (snd (dispatch (\<lambda>l t p. Some (Str ''boom'')) ''eventA'' (Num 42)
                  (addEventListener_times 3 ''eventA'' 7 new_dispatcher)))
        = [(7, ''eventA'', Num 42)]
   \<and> heard (snd (dispatch (\<lambda>l t p. Some (Str ''boom'')) ''eventA'' (Num 42)
                  (snd (removeEventListener ''eventA'' 7
                     (addEventListener_times 3 ''eventA'' 7 new_dispatcher)))))
        = []"
proof -
  have h: "\<not> inherited_name ''eventA''" "is_Set new_dispatcher ''eventA''" "(0::nat) < 3"
    by (simp_all add: is_Set_def members_def new_dispatcher_def inherited_name_def
        Object_prototype_names_def)
  have m: "members new_dispatcher ''eventA'' = []" "heard new_dispatcher = []"
    by (simp_all add: members_def new_dispatcher_def)
  have a: "addEventListener_times 3 ''eventA'' 7 new_dispatcher
      = new_dispatcher\<lparr>type_listeners := (type_listeners new_dispatcher)(''eventA'' \<mapsto> [7])\<rparr>"
    by (simp add: numeral_3_eq_3 addEventListener_times_plain[OF h(1)] m Set_add_def
        del: addEventListener_times.simps)
  have g: "listeners_get (addEventListener_times 3 ''eventA'' 7 new_dispatcher) ''eventA''
      \<noteq> InheritedValue"
    unfolding a by (simp add: listeners_get_def)
  have r: "snd (removeEventListener ''eventA'' 7
              (addEventListener_times 3 ''eventA'' 7 new_dispatcher))
      = new_dispatcher\<lparr>type_listeners := (type_listeners new_dispatcher)(''eventA'' \<mapsto> [])\<rparr>"
    unfolding a by (simp add: removeEventListener_def listeners_get_def Set_delete_def)
  have d1: "heard (snd (dispatch (\<lambda>l t p. Some (Str ''boom'')) ''eventA'' (Num 42)
                  (addEventListener_times 3 ''eventA'' 7 new_dispatcher)))
        = [(7, ''eventA'', Num 42)]"
    unfolding a by (simp add: dispatch_def listeners_get_def call_listener_def m)
  have d2: "heard (snd (dispatch (\<lambda>l t p. Some (Str ''boom'')) ''eventA'' (Num 42)
                  (snd (removeEventListener ''eventA'' 7
                     (addEventListener_times 3 ''eventA'' 7 new_dispatcher)))))
        = []"
    unfolding r by (simp add: dispatch_def listeners_get_def m)
  show ?thesis
    using h d1 d2
      addEventListener_idempotent [OF h, where k = 2 and l = 7
        and \<beta> = "\<lambda>l t p. Some (Str ''boom'')" and p = "Num 42"]
    by (simp add: m Set_add_def)
qed

section \<open>Dispatch in flat mode\<close>




lemma stored_array_calls [simp]:
  "stored_array (s\<lparr>calls := c\<rparr>) event = stored_array s event"
  by (simp add: stored_array_def)






section \<open>A handler alone in a new tree\<close>

lemma split_on_nonempty [simp]: "split_on sep acc s \<noteq> []"
  by (induction sep acc s rule: split_on.induct) auto

lemma map_of_set_child [simp]: "map_of (set_child k n cs) k = Some n"
  by (induction cs) auto

lemma map_of_set_child_other [simp]: "k' \<noteq> k \<Longrightarrow> map_of (set_child k n cs) k' = map_of cs k'"
  by (induction cs) auto

lemma handler_value_Fn [simp]: "handler_value (Fn f)"
  by (simp add: handler_value_def)

lemma listeners_of_handler [simp]: "handler_value h \<Longrightarrow> listeners_of h = [h]"
  by (cases h) (simp_all add: listeners_of_def handler_value_def)

lemma listeners_of_Undefined [simp]: "listeners_of Undefined = []"
  by (simp add: listeners_of_def)

lemma listeners_of_Arr [simp]: "listeners_of (Arr hs) = hs"
  by (simp add: listeners_of_def)

lemma add_listener_empty [simp]:
  "handler_value h \<Longrightarrow> add_listener h empty_node = Node h []"
  by (simp add: add_listener_def empty_node_def)

lemma children_add_listener [simp]: "children (add_listener h n) = children n"
  by (simp add: add_listener_def split: jsval.splits)

lemma traverse_leaf:
  "handler_value h \<Longrightarrow> set (traverse parts (Node h []) deep) \<subseteq> {h}"
  by (cases parts) (simp_all add: child_def)

lemma add_parts_fresh_only:
  "handler_value h \<Longrightarrow>
   set (traverse parts' (add_parts pat parts h empty_node) deep) \<subseteq> {h}"
proof (induction parts arbitrary: parts' deep)
  case Nil
  then show ?case by simp
next
  case (Cons p ps)
  define C where "C = add_parts pat ps h (if ps = [] then add_listener h empty_node else empty_node)"
  have C: "set (traverse q C dp) \<subseteq> {h}" for q dp
  proof (cases "ps = []")
    case True
    then show ?thesis using Cons.prems traverse_leaf[of h q dp] by (simp add: C_def)
  next
    case False
    then show ?thesis using Cons.IH[OF Cons.prems] by (simp add: C_def)
  qed
  define l where "l = (if pat \<and> p = ''**'' then h else Undefined)"
  have T: "add_parts pat (p # ps) h empty_node = Node l [(p, C)]"
    using Cons.prems by (simp add: C_def l_def Let_def empty_node_def child_def add_listener_def)
  have l: "set (listeners_of l) \<subseteq> {h}"
    using Cons.prems by (simp add: l_def)
  show ?case
  proof (cases parts')
    case Nil
    then show ?thesis unfolding T using l by simp
  next
    case (Cons c rest)
    then show ?thesis
      unfolding T
      using C[of rest False] C[of rest True] C[of "c # rest" True] C[of "[]" False]
      by (auto simp add: child_def)
  qed
qed

lemma listeners_add_listener_mem:
  "handler_value h \<Longrightarrow> h \<in> set (listeners_of (listeners (add_listener h n)))"
  by (cases "listeners n"; cases h) (simp_all add: add_listener_def handler_value_def listeners_of_def)

lemma add_parts_found:
  "handler_value h \<Longrightarrow> parts \<noteq> [] \<Longrightarrow>
   h \<in> set (traverse parts (add_parts pat parts h t) deep)"
proof (induction parts arbitrary: t deep)
  case Nil
  then show ?case by simp
next
  case (Cons p ps)
  define level1 where "level1 = (if pat \<and> p = ''**'' then add_listener h t else t)"
  define next0 where "next0 = (case child level1 p of Some t' \<Rightarrow> t' | None \<Rightarrow> empty_node)"
  define next1 where "next1 = (if ps = [] then add_listener h next0 else next0)"
  have T: "add_parts pat (p # ps) h t
     = Node (listeners level1) (set_child p (add_parts pat ps h next1) (children level1))"
    by (simp add: level1_def next0_def next1_def Let_def)
  have "h \<in> set (traverse ps (add_parts pat ps h next1) False)"
  proof (cases "ps = []")
    case True
    then show ?thesis using Cons.prems(1) by (simp add: next1_def listeners_add_listener_mem)
  next
    case False
    then show ?thesis using Cons.IH[OF Cons.prems(1)] by simp
  qed
  then show ?case unfolding T by (simp add: child_def)
qed

lemma set_spread_single:
  "set xs \<subseteq> {h} \<Longrightarrow>
   set_spread seen xs = (if h \<in> set seen \<or> xs = [] then seen else seen @ [h])"
  by (induction xs arbitrary: seen) auto

lemma found_fresh:
  assumes "handler_value h" "parts \<noteq> []"
  shows "set_spread [] (traverse parts (add_parts pat parts h empty_node) False) = [h]"
proof -
  have a: "set (traverse parts (add_parts pat parts h empty_node) False) \<subseteq> {h}"
    using assms(1) by (rule add_parts_fresh_only)
  have b: "traverse parts (add_parts pat parts h empty_node) False \<noteq> []"
    using add_parts_found[OF assms, of pat empty_node False] by auto
  show ?thesis using set_spread_single[OF a, of "[]"] b by simp
qed


lemma findWildcardHandlers_updates [simp]:
  "findWildcardHandlers (s\<lparr>heap := hp\<rparr>) = findWildcardHandlers s"
  "findWildcardHandlers (s\<lparr>calls := cs\<rparr>) = findWildcardHandlers s"
  "findWildcardHandlers (s\<lparr>eventHandlers := eh\<rparr>) = findWildcardHandlers s"
  by (simp_all add: findWildcardHandlers_def fun_eq_iff)

lemma parseEventName_updates [simp]:
  "parseEventName (s\<lparr>heap := hp\<rparr>) = parseEventName s"
  "parseEventName (s\<lparr>calls := cs\<rparr>) = parseEventName s"
  "parseEventName (s\<lparr>eventHandlers := eh\<rparr>) = parseEventName s"
  "parseEventName (s\<lparr>wildcardTree := wt\<rparr>) = parseEventName s"
  by (simp_all add: parseEventName_def fun_eq_iff)

section \<open>Counts that are not positive\<close>

lemma emit_nonpositive_step:
  assumes "sole_handler s event (Fn (Closure a))" "a < length (heap s)"
    "heap s ! a = Limited ev (Fn (UserFn n)) r" "r \<le> 0"
  shows "emit (Suc (Suc d)) \<beta> event args s
     = (case \<beta> n args of None \<Rightarrow> Returned True | Some e \<Rightarrow> Thrown e,
        s\<lparr>heap := (heap s)[a := Limited ev (Fn (UserFn n)) (r - 1)],
          calls := calls s @ [(UserFn n, args)]\<rparr>)"
proof (cases "supportsWildcards s")
  case True
  then show ?thesis using assms
    by (simp add: sole_handler_def emit_wild call_Closure split: option.splits)
next
  case False
  then show ?thesis using assms
    by (simp add: sole_handler_def emit_def resolve_handlers_def call_Closure
        split: option.splits)
qed

lemma emits_nonpositive:
  "sole_handler s event (Fn (Closure a)) \<Longrightarrow> a < length (heap s) \<Longrightarrow>
   heap s ! a = Limited ev (Fn (UserFn n)) r \<Longrightarrow> r \<le> 0 \<Longrightarrow>
   calls (emits m (Suc (Suc d)) \<beta> event args s) = calls s @ replicate m (UserFn n, args)
   \<and> sole_handler (emits m (Suc (Suc d)) \<beta> event args s) event (Fn (Closure a))
   \<and> heap (emits m (Suc (Suc d)) \<beta> event args s) ! a = Limited ev (Fn (UserFn n)) (r - int m)"
proof (induction m arbitrary: s r)
  case 0
  then show ?case by simp
next
  case (Suc m)
  let ?s1 = "s\<lparr>heap := (heap s)[a := Limited ev (Fn (UserFn n)) (r - 1)],
          calls := calls s @ [(UserFn n, args)]\<rparr>"
  have e: "snd (emit (Suc (Suc d)) \<beta> event args s) = ?s1"
    using Suc.prems by (simp add: emit_nonpositive_step)
  have "calls (emits m (Suc (Suc d)) \<beta> event args ?s1) = calls ?s1 @ replicate m (UserFn n, args)
   \<and> sole_handler (emits m (Suc (Suc d)) \<beta> event args ?s1) event (Fn (Closure a))
   \<and> heap (emits m (Suc (Suc d)) \<beta> event args ?s1) ! a = Limited ev (Fn (UserFn n)) (r - 1 - int m)"
    using Suc.prems by (intro Suc.IH) (simp_all add: sole_handler_def)
  then show ?case
    by (simp add: e replicate_app_Cons_same algebra_simps)
qed

lemma limitedTimes_sole:
  assumes "\<not> internal_name event"
    and "s = new_wild st
       \<or> (\<not> supportsWildcards s \<and> quiet_new s \<and> \<not> truthy (eventHandlers s event)
          \<and> \<not> inherited_name event)"
  shows "\<exists>s1. limitedTimes d \<beta> event k (Fn (UserFn n)) no_options s = (Returned (), s1)
     \<and> sole_handler s1 event (Fn (Closure (length (heap s))))
     \<and> heap s1 = heap s @ [Limited event (Fn (UserFn n)) k] \<and> calls s1 = calls s"
  using assms(2)
proof
  assume s: "s = new_wild st"
  have p: "js_split event ''.'' \<noteq> []" by (simp add: js_split_def)
  show ?thesis using assms(1)
    by (simp add: s limitedTimes_quiet store_handler_wild sole_handler_def addToWildcardTree_def
        findWildcardHandlers_def parseEventName_def Let_def found_fresh[OF _ p])
next
  assume "\<not> supportsWildcards s \<and> quiet_new s \<and> \<not> truthy (eventHandlers s event)
     \<and> \<not> inherited_name event"
  then show ?thesis using assms(1)
    by (simp add: limitedTimes_quiet store_handler_absent sole_handler_def)
qed

text \<open>
  The wrapper of \<open>limitedTimes\<close> with a count \<open>r \<le> 0\<close>, whatever the emitter and the
  function it wraps: a call of it lowers the count and calls the function, and never
  calls \<open>off\<close>. Registered alone for an event that is neither internal nor a name of
  \<open>Object.prototype\<close>, on a new wildcard emitter or on a flat emitter where the event
  has no handler, the function is called by every \<open>emit\<close> of the event.
\<close>

lemma nonpositive_wrapper_call:
  "a < length (heap s) \<Longrightarrow> heap s ! a = Limited ev h r \<Longrightarrow> r \<le> 0 \<Longrightarrow>
   call (Suc d) \<beta> (Fn (Closure a)) args s
     = call d \<beta> h args (s\<lparr>heap := (heap s)[a := Limited ev h (r - 1)]\<rparr>)"
  by (simp add: call_Closure)

lemma limitedTimes_nonpositive_alone:
  assumes "k \<le> 0" "\<not> internal_name event"
    and "s = new_wild st
       \<or> (\<not> supportsWildcards s \<and> quiet_new s \<and> \<not> truthy (eventHandlers s event)
          \<and> \<not> inherited_name event)"
  shows "calls (emits m (Suc (Suc d)) \<beta> event args
            (snd (limitedTimes d' \<beta> event k (Fn (UserFn n)) no_options s)))
           = calls s @ replicate m (UserFn n, args)
     \<and> sole_handler (emits m (Suc (Suc d)) \<beta> event args
            (snd (limitedTimes d' \<beta> event k (Fn (UserFn n)) no_options s)))
          event (Fn (Closure (length (heap s))))
     \<and> heap (emits m (Suc (Suc d)) \<beta> event args
            (snd (limitedTimes d' \<beta> event k (Fn (UserFn n)) no_options s))) ! length (heap s)
           = Limited event (Fn (UserFn n)) (k - int m)"
proof -
  obtain s1 where s1: "limitedTimes d' \<beta> event k (Fn (UserFn n)) no_options s = (Returned (), s1)"
     "sole_handler s1 event (Fn (Closure (length (heap s))))"
     "heap s1 = heap s @ [Limited event (Fn (UserFn n)) k]" "calls s1 = calls s"
    using limitedTimes_sole[OF assms(2,3)] by blast
  show ?thesis
    using emits_nonpositive[of s1 event "length (heap s)" event n k m d \<beta> args] s1 assms(1)
    by simp
qed

text \<open>
  Claim C7. The wrapper of a count \<open>k \<le> 0\<close> never removes itself, but the function is
  not called by every \<open>emit\<close>. On a new flat emitter, let \<open>once\<close> register \<open>H0\<close> and
  then \<open>limitedTimes\<close> with the count \<open>k\<close> register \<open>H5\<close> for the same event, both
  functions returning. During the first \<open>emit\<close> the wrapper of \<open>H0\<close> removes itself
  from the array that \<open>forEach\<close> is running over; the wrapper of \<open>H5\<close> moves to the
  index just visited and is skipped, so the first \<open>emit\<close> calls \<open>H0\<close> only. The second
  \<open>emit\<close> calls \<open>H5\<close>.
\<close>

theorem nonpositive_count_skipped:
  "k \<le> 0 \<Longrightarrow>
   calls (emits (Suc 0) (Suc (Suc d)) returns ''e'' args
     (snd (limitedTimes db returns ''e'' k (Fn (UserFn 5)) no_options
       (snd (once da returns ''e'' (Fn (UserFn 0)) no_options (new_flat st))))))
   = [(UserFn 0, args)]
   \<and> calls (emits (Suc (Suc 0)) (Suc (Suc d)) returns ''e'' args
     (snd (limitedTimes db returns ''e'' k (Fn (UserFn 5)) no_options
       (snd (once da returns ''e'' (Fn (UserFn 0)) no_options (new_flat st))))))
   = [(UserFn 0, args), (UserFn 5, args)]"
  by (simp add: once_def limitedTimes_quiet store_handler_absent store_handler_single
      emit_array emit_single stored_array_def call_Closure off_flat_array
      listener_def splice1_def returns_def)

theorem nonpositive_count_skipped_witness:
  "(0::int) \<le> 0
   \<and> calls (emits (Suc 0) (Suc (Suc 0)) returns ''e'' [Num 1]
     (snd (limitedTimes 0 returns ''e'' 0 (Fn (UserFn 5)) no_options
       (snd (once 0 returns ''e'' (Fn (UserFn 0)) no_options (new_flat default_settings))))))
   = [(UserFn 0, [Num 1])]
   \<and> calls (emits (Suc (Suc 0)) (Suc (Suc 0)) returns ''e'' [Num 1]
     (snd (limitedTimes 0 returns ''e'' 0 (Fn (UserFn 5)) no_options
       (snd (once 0 returns ''e'' (Fn (UserFn 0)) no_options (new_flat default_settings))))))
   = [(UserFn 0, [Num 1]), (UserFn 5, [Num 1])]"
  using nonpositive_count_skipped [where k = 0 and d = 0 and args = "[Num 1]" and db = 0
      and da = 0 and st = default_settings]
  by simp

section \<open>Handlers that throw\<close>

lemma forEach_users_throw:
  "list_all (\<lambda>n. \<beta> n args = None) pre \<Longrightarrow> \<beta> x args = Some e \<Longrightarrow>
   forEach (Suc d) \<beta> (user_fns (pre @ x # post)) args s
     = (Thrown e, s\<lparr>calls := calls s @ map (\<lambda>n. (UserFn n, args)) (pre @ [x])\<rparr>)"
proof (induction pre arbitrary: s)
  case Nil
  then show ?case by (simp add: user_fns_def)
next
  case (Cons n pre)
  have "forEach (Suc d) \<beta> (user_fns (pre @ x # post)) args (s\<lparr>calls := calls s @ [(UserFn n, args)]\<rparr>)
     = (Thrown e, (s\<lparr>calls := calls s @ [(UserFn n, args)]\<rparr>)
          \<lparr>calls := calls (s\<lparr>calls := calls s @ [(UserFn n, args)]\<rparr>) @ map (\<lambda>n. (UserFn n, args)) (pre @ [x])\<rparr>)"
    using Cons.prems by (intro Cons.IH) simp_all
  then show ?case using Cons.prems by (simp add: user_fns_def)
qed

lemma forEach_stored_throw:
  "stored_array s event = user_fns (pre @ x # post) \<Longrightarrow>
   list_all (\<lambda>n. \<beta> n args = None) pre \<Longrightarrow> \<beta> x args = Some e \<Longrightarrow>
   k \<le> length pre \<Longrightarrow> k + m = length (pre @ x # post) \<Longrightarrow>
   forEach_stored (Suc d) \<beta> event args k m s
     = (Thrown e, s\<lparr>calls := calls s @ map (\<lambda>n. (UserFn n, args)) (drop k (pre @ [x]))\<rparr>)"
proof (induction m arbitrary: k s)
  case 0
  then show ?case by simp
next
  case (Suc m)
  have len: "k < length (stored_array s event)" using Suc.prems by (simp add: user_fns_def)
  show ?case
  proof (cases "k = length pre")
    case True
    then have "stored_array s event ! k = Fn (UserFn x)"
      using Suc.prems(1) by (simp add: user_fns_def nth_append)
    then show ?thesis using len True Suc.prems(3) by simp
  next
    case False
    then have k: "k < length pre" using Suc.prems(4) by simp
    then have el: "stored_array s event ! k = Fn (UserFn (pre ! k))"
      using Suc.prems(1) by (simp add: user_fns_def nth_append)
    have ret: "\<beta> (pre ! k) args = None"
      using Suc.prems(2) k by (simp add: list_all_length)
    have d: "drop k (pre @ [x]) = pre ! k # drop (Suc k) (pre @ [x])"
      using k by (simp add: Cons_nth_drop_Suc)
    let ?s1 = "s\<lparr>calls := calls s @ [(UserFn (pre ! k), args)]\<rparr>"
    have "forEach_stored (Suc d) \<beta> event args (Suc k) m ?s1
       = (Thrown e, ?s1\<lparr>calls := calls ?s1 @ map (\<lambda>n. (UserFn n, args)) (drop (Suc k) (pre @ [x]))\<rparr>)"
      using Suc.prems k by (intro Suc.IH) simp_all
    then show ?thesis using len el ret unfolding d by simp
  qed
qed

lemma listeners_of_cases:
  "listeners_of v = h # hs \<Longrightarrow> v = Arr (h # hs) \<or> (hs = [] \<and> v = h \<and> handler_value h)"
  by (cases v) (auto simp add: listeners_of_def handler_value_def split: if_splits)

text \<open>
  The handlers \<open>emit\<close> resolves are ordinary functions, of which \<open>x\<close> is the first to
  throw: \<open>emit\<close> throws what \<open>x\<close> threw, having called the handlers up to \<open>x\<close> and none
  after it.
\<close>

lemma emit_first_thrower:
  assumes "listeners_of (resolve_handlers s event) = user_fns (pre @ x # post)"
    and "list_all (\<lambda>n. \<beta> n args = None) pre" and "\<beta> x args = Some e"
  shows "emit (Suc d) \<beta> event args s
           = (Thrown e, s\<lparr>calls := calls s @ map (\<lambda>n. (UserFn n, args)) (pre @ [x])\<rparr>)"
proof (cases "supportsWildcards s")
  case True
  then have "findWildcardHandlers s (parseEventName s event) = user_fns (pre @ x # post)"
    using assms(1) by (simp add: resolve_handlers_def)
  then show ?thesis using True assms(2,3) by (simp add: emit_wild forEach_users_throw)
next
  case False
  then have l: "listeners_of (registry_get s event) = user_fns (pre @ x # post)"
    using assms(1) by (simp add: resolve_handlers_def)
  obtain h hs where hs: "user_fns (pre @ x # post) = h # hs"
    by (cases "user_fns (pre @ x # post)") (simp_all add: user_fns_def)
  from listeners_of_cases[OF l[unfolded hs]]
  show ?thesis
  proof
    assume a: "registry_get s event = Arr (h # hs)"
    have st: "stored_array s event = user_fns (pre @ x # post)"
      using a hs by (simp add: stored_array_def)
    have "forEach_stored (Suc d) \<beta> event args 0 (length (pre @ x # post)) s
      = (Thrown e, s\<lparr>calls := calls s @ map (\<lambda>n. (UserFn n, args)) (drop 0 (pre @ [x]))\<rparr>)"
      using st assms(2,3) by (intro forEach_stored_throw) simp_all
    moreover have "length (h # hs) = length (pre @ x # post)"
      using hs by (metis length_map user_fns_def)
    ultimately show ?thesis using False a
      by (simp add: emit_def resolve_handlers_def)
  next
    assume a: "hs = [] \<and> registry_get s event = h \<and> handler_value h"
    then have "pre = []" "h = Fn (UserFn x)" using hs by (cases pre; simp add: user_fns_def)+
    then show ?thesis using False a assms(3) by (simp add: emit_def resolve_handlers_def)
  qed
qed

text \<open>
  The loops of \<open>emit\<close>, for handlers of any kind: when the handlers before one have
  returned and that one throws, the loop ends there with what it threw.
\<close>

lemma forEach_append_throw:
  "forEach d \<beta> pre args s = (Returned (), s1) \<Longrightarrow> call d \<beta> x args s1 = (Thrown e, s2) \<Longrightarrow>
   forEach d \<beta> (pre @ x # post) args s = (Thrown e, s2)"
proof (induction pre arbitrary: s)
  case Nil
  then show ?case by simp
next
  case (Cons h pre)
  obtain r s' where c: "call d \<beta> h args s = (r, s')" by (cases "call d \<beta> h args s")
  show ?case
  proof (cases r)
    case (Returned v)
    then have "forEach d \<beta> pre args s' = (Returned (), s1)" using Cons.prems(1) c by simp
    from Cons.IH[OF this Cons.prems(2)] show ?thesis using c Returned by simp
  qed (use Cons.prems(1) c in simp_all)
qed

lemma forEach_stored_throw_at:
  "forEach_stored d \<beta> ev args k i s = (Returned (), s1) \<Longrightarrow>
   k + i < length (stored_array s1 ev) \<Longrightarrow>
   call d \<beta> (stored_array s1 ev ! (k + i)) args s1 = (Thrown e, s2) \<Longrightarrow>
   forEach_stored d \<beta> ev args k (i + Suc n) s = (Thrown e, s2)"
proof (induction i arbitrary: k s)
  case 0
  then show ?case by simp
next
  case (Suc i)
  show ?case
  proof (cases "k < length (stored_array s ev)")
    case False
    then have "forEach_stored d \<beta> ev args (Suc k) i s = (Returned (), s1)"
      using Suc.prems(1) by simp
    from Suc.IH[OF this] Suc.prems(2,3) show ?thesis using False by simp
  next
    case True
    obtain r s' where c: "call d \<beta> (stored_array s ev ! k) args s = (r, s')"
      by (cases "call d \<beta> (stored_array s ev ! k) args s")
    show ?thesis
    proof (cases r)
      case (Returned v)
      then have "forEach_stored d \<beta> ev args (Suc k) i s' = (Returned (), s1)"
        using Suc.prems(1) c True by simp
      from Suc.IH[OF this] Suc.prems(2,3) show ?thesis using c Returned True by simp
    qed (use Suc.prems(1) c True in simp_all)
  qed
qed

text \<open>
  Claim C8. Let a handler throw \<open>e\<close> during \<open>emit\<close>, the handlers called before it
  having returned; the handlers are values of any kind, among them the wrappers of the
  emitter. In wildcard mode the handlers are those that \<open>findWildcardHandlers\<close> gives, in
  flat mode the current members of the stored array, or the one stored function. Then
  \<open>emit\<close> throws \<open>e\<close> to its caller, and the emitter is left as it was when the handler
  threw: no handler is called after it. By contrast, when a listener of a type throws
  during \<open>dispatch\<close> of index.ts, \<open>dispatch\<close> returns, has called every listener of the
  type, and has logged what the listeners threw.
\<close>

theorem emit_propagates_dispatch_catches:
  "(supportsWildcards s \<longrightarrow>
      findWildcardHandlers s (parseEventName s event) = pre @ x # post \<longrightarrow>
      forEach d \<beta> pre args s = (Returned (), sa) \<longrightarrow>
      call d \<beta> x args sa = (Thrown e, sb) \<longrightarrow>
      emit d \<beta> event args s = (Thrown e, sb))
   \<and> (\<not> supportsWildcards s \<longrightarrow> registry_get s event = Arr hs \<longrightarrow> i < length hs \<longrightarrow>
      forEach_stored d \<beta> event args 0 i s = (Returned (), sa) \<longrightarrow>
      i < length (stored_array sa event) \<longrightarrow>
      call d \<beta> (stored_array sa event ! i) args sa = (Thrown e, sb) \<longrightarrow>
      emit d \<beta> event args s = (Thrown e, sb))
   \<and> (\<not> supportsWildcards s \<longrightarrow> is_function (registry_get s event) \<longrightarrow>
      call d \<beta> (registry_get s event) args s = (Thrown e, sb) \<longrightarrow>
      emit d \<beta> event args s = (Thrown e, sb))
   \<and> (l \<in> set (members ds t) \<longrightarrow> \<beta>' l t p = Some e' \<longrightarrow>
      dispatch \<beta>' t p ds
        = (Returned (),
           ds\<lparr>heard := heard ds @ map (\<lambda>l. (l, t, p)) (members ds t),
              console_error :=
                console_error ds @ List.map_filter (\<lambda>l. \<beta>' l t p) (members ds t)\<rparr>)
      \<and> e' \<in> set (console_error (snd (dispatch \<beta>' t p ds))))"
proof (intro conjI impI)
  assume "supportsWildcards s"
    "findWildcardHandlers s (parseEventName s event) = pre @ x # post"
    "forEach d \<beta> pre args s = (Returned (), sa)" "call d \<beta> x args sa = (Thrown e, sb)"
  then show "emit d \<beta> event args s = (Thrown e, sb)"
    by (simp add: emit_wild forEach_append_throw)
next
  assume a: "\<not> supportsWildcards s" "registry_get s event = Arr hs" "i < length hs"
    "forEach_stored d \<beta> event args 0 i s = (Returned (), sa)"
    "i < length (stored_array sa event)"
    "call d \<beta> (stored_array sa event ! i) args sa = (Thrown e, sb)"
  obtain n where n: "length hs = i + Suc n"
    using a(3) by (metis add_Suc_right less_iff_Suc_add)
  have "forEach_stored d \<beta> event args 0 (i + Suc n) s = (Thrown e, sb)"
    by (rule forEach_stored_throw_at[OF a(4)]) (use a(5,6) in simp_all)
  then show "emit d \<beta> event args s = (Thrown e, sb)"
    using a(1,2) n by (simp add: emit_def resolve_handlers_def)
next
  assume "\<not> supportsWildcards s" "is_function (registry_get s event)"
    "call d \<beta> (registry_get s event) args s = (Thrown e, sb)"
  then show "emit d \<beta> event args s = (Thrown e, sb)"
    by (cases "registry_get s event") (simp_all add: emit_def resolve_handlers_def)
next
  assume a: "l \<in> set (members ds t)" "\<beta>' l t p = Some e'"
  have g: "listeners_get ds t \<noteq> InheritedValue"
    using listeners_get_member[OF a(1)] by simp
  show "dispatch \<beta>' t p ds
        = (Returned (),
           ds\<lparr>heard := heard ds @ map (\<lambda>l. (l, t, p)) (members ds t),
              console_error :=
                console_error ds @ List.map_filter (\<lambda>l. \<beta>' l t p) (members ds t)\<rparr>)"
    by (rule dispatch_result[OF g])
  have "e' \<in> set (List.map_filter (\<lambda>l. \<beta>' l t p) (members ds t))"
    using a by (force simp add: List.map_filter_def)
  then show "e' \<in> set (console_error (snd (dispatch \<beta>' t p ds)))"
    by (simp add: dispatch_result[OF g])
qed

theorem emit_propagates_dispatch_catches_witness:
  "emit (Suc 0) (\<lambda>n args. if n = 2 then Some (Err ''boom'') else None) ''data'' [Num 1]
      ((new_wild default_settings)\<lparr>wildcardTree :=
        Node Undefined [(''data'', Node (Arr [Fn (UserFn 1), Fn (UserFn 2), Fn (UserFn 3)]) [])]\<rparr>)
     = (Thrown (Err ''boom''),
        ((new_wild default_settings)\<lparr>wildcardTree :=
        Node Undefined [(''data'', Node (Arr [Fn (UserFn 1), Fn (UserFn 2), Fn (UserFn 3)]) [])]\<rparr>)\<lparr>calls := [(UserFn 1, [Num 1]), (UserFn 2, [Num 1])]\<rparr>)
   \<and> emit (Suc (Suc 0)) (\<lambda>n args. if n = 2 then Some (Err ''boom'') else None) ''data'' [Num 1]
      ((new_flat default_settings)
        \<lparr>heap := [Limited ''data'' (Fn (UserFn 2)) 5],
         eventHandlers :=
           (\<lambda>k. Undefined)(''data'' := Arr [Fn (UserFn 1), Fn (Closure 0), Fn (UserFn 3)])\<rparr>)
     = (Thrown (Err ''boom''),
        ((new_flat default_settings)
        \<lparr>heap := [Limited ''data'' (Fn (UserFn 2)) 5],
         eventHandlers :=
           (\<lambda>k. Undefined)(''data'' := Arr [Fn (UserFn 1), Fn (Closure 0), Fn (UserFn 3)])\<rparr>)\<lparr>heap := [Limited ''data'' (Fn (UserFn 2)) 4],
           calls := [(UserFn 1, [Num 1]), (UserFn 2, [Num 1])]\<rparr>)
   \<and> emit (Suc 0) (\<lambda>n args. if n = 2 then Some (Err ''boom'') else None) ''data'' [Num 1]
      ((new_flat default_settings)\<lparr>eventHandlers := (\<lambda>k. Undefined)(''data'' := Fn (UserFn 2))\<rparr>)
     = (Thrown (Err ''boom''),
        ((new_flat default_settings)\<lparr>eventHandlers := (\<lambda>k. Undefined)(''data'' := Fn (UserFn 2))\<rparr>)\<lparr>calls := [(UserFn 2, [Num 1])]\<rparr>)
   \<and> dispatch (\<lambda>l t p. if l = 1 then Some (Err ''bad'') else None) ''eventA'' (Num 42)
        (snd (addEventListener ''eventA'' 2 (snd (addEventListener ''eventA'' 1 new_dispatcher))))
     = (Returned (),
        (snd (addEventListener ''eventA'' 2 (snd (addEventListener ''eventA'' 1 new_dispatcher))))
          \<lparr>heard := [(1, ''eventA'', Num 42), (2, ''eventA'', Num 42)],
           console_error := [Err ''bad'']\<rparr>)"
proof -
  let ?w = "(new_wild default_settings)\<lparr>wildcardTree :=
        Node Undefined [(''data'', Node (Arr [Fn (UserFn 1), Fn (UserFn 2), Fn (UserFn 3)]) [])]\<rparr>"
  let ?f = "(new_flat default_settings)
        \<lparr>heap := [Limited ''data'' (Fn (UserFn 2)) 5],
         eventHandlers :=
           (\<lambda>k. Undefined)(''data'' := Arr [Fn (UserFn 1), Fn (Closure 0), Fn (UserFn 3)])\<rparr>"
  let ?s = "(new_flat default_settings)\<lparr>eventHandlers := (\<lambda>k. Undefined)(''data'' := Fn (UserFn 2))\<rparr>"
  let ?\<beta> = "(\<lambda>n args. if n = 2 then Some (Err ''boom'') else None) :: behaviour"
  let ?ds = "(snd (addEventListener ''eventA'' 2 (snd (addEventListener ''eventA'' 1 new_dispatcher))))"
  let ?\<beta>' = "(\<lambda>l t p. if l = 1 then Some (Err ''bad'') else None) :: listener_behaviour"
  have w: "supportsWildcards ?w"
    "findWildcardHandlers ?w (parseEventName ?w ''data'')
       = [Fn (UserFn 1)] @ Fn (UserFn 2) # [Fn (UserFn 3)]"
    "forEach (Suc 0) ?\<beta> [Fn (UserFn 1)] [Num 1] ?w
       = (Returned (), ?w\<lparr>calls := [(UserFn 1, [Num 1])]\<rparr>)"
    "call (Suc 0) ?\<beta> (Fn (UserFn 2)) [Num 1] (?w\<lparr>calls := [(UserFn 1, [Num 1])]\<rparr>)
       = (Thrown (Err ''boom''), ?w\<lparr>calls := [(UserFn 1, [Num 1]), (UserFn 2, [Num 1])]\<rparr>)"
    by (simp_all add: findWildcardHandlers_def parseEventName_def js_split_def child_def)
  have f: "\<not> supportsWildcards ?f"
    "registry_get ?f ''data'' = Arr [Fn (UserFn 1), Fn (Closure 0), Fn (UserFn 3)]"
    "1 < length [Fn (UserFn 1), Fn (Closure 0), Fn (UserFn 3)]"
    "forEach_stored (Suc (Suc 0)) ?\<beta> ''data'' [Num 1] 0 1 ?f
       = (Returned (), ?f\<lparr>calls := [(UserFn 1, [Num 1])]\<rparr>)"
    "1 < length (stored_array (?f\<lparr>calls := [(UserFn 1, [Num 1])]\<rparr>) ''data'')"
    "call (Suc (Suc 0)) ?\<beta> (stored_array (?f\<lparr>calls := [(UserFn 1, [Num 1])]\<rparr>) ''data'' ! 1)
        [Num 1] (?f\<lparr>calls := [(UserFn 1, [Num 1])]\<rparr>)
       = (Thrown (Err ''boom''),
          ?f\<lparr>heap := [Limited ''data'' (Fn (UserFn 2)) 4],
             calls := [(UserFn 1, [Num 1]), (UserFn 2, [Num 1])]\<rparr>)"
    by (simp_all add: registry_get_def stored_array_def call_Closure)
  have s: "\<not> supportsWildcards ?s" "is_function (registry_get ?s ''data'')"
    "call (Suc 0) ?\<beta> (registry_get ?s ''data'') [Num 1] ?s
       = (Thrown (Err ''boom''), ?s\<lparr>calls := [(UserFn 2, [Num 1])]\<rparr>)"
    by (simp_all add: registry_get_def)
  have d0: "?ds = new_dispatcher\<lparr>type_listeners := (\<lambda>t. None)(''eventA'' \<mapsto> [1, 2])\<rparr>"
    by (simp add: addEventListener_plain inherited_name_def Object_prototype_names_def
        members_def Set_add_def new_dispatcher_def)
  have d: "1 \<in> set (members ?ds ''eventA'')" "?\<beta>' 1 ''eventA'' (Num 42) = Some (Err ''bad'')"
    "members ?ds ''eventA'' = [1, 2]" "heard ?ds = []" "console_error ?ds = []"
    unfolding d0 by (simp_all add: members_def new_dispatcher_def)
  note t = emit_propagates_dispatch_catches
  have c1: "emit (Suc 0) ?\<beta> ''data'' [Num 1] ?w
      = (Thrown (Err ''boom''), ?w\<lparr>calls := [(UserFn 1, [Num 1]), (UserFn 2, [Num 1])]\<rparr>)"
    using t [THEN conjunct1, rule_format, OF w] .
  have c2: "emit (Suc (Suc 0)) ?\<beta> ''data'' [Num 1] ?f
      = (Thrown (Err ''boom''),
         ?f\<lparr>heap := [Limited ''data'' (Fn (UserFn 2)) 4],
            calls := [(UserFn 1, [Num 1]), (UserFn 2, [Num 1])]\<rparr>)"
    using t [THEN conjunct2, THEN conjunct1, rule_format, OF f] .
  have c3: "emit (Suc 0) ?\<beta> ''data'' [Num 1] ?s
      = (Thrown (Err ''boom''), ?s\<lparr>calls := [(UserFn 2, [Num 1])]\<rparr>)"
    using t [THEN conjunct2, THEN conjunct2, THEN conjunct1, rule_format, OF s] .
  have c4': "dispatch ?\<beta>' ''eventA'' (Num 42) ?ds
      = (Returned (),
         ?ds\<lparr>heard := heard ?ds @ map (\<lambda>l. (l, ''eventA'', Num 42)) (members ?ds ''eventA''),
             console_error := console_error ?ds
               @ List.map_filter (\<lambda>l. ?\<beta>' l ''eventA'' (Num 42)) (members ?ds ''eventA'')\<rparr>)"
    using emit_propagates_dispatch_catches
        [where \<beta>' = "?\<beta>'" and l = 1 and t = "''eventA''" and p = "Num 42" and ds = "?ds"
           and e' = "Err ''bad''",
         THEN conjunct2, THEN conjunct2, THEN conjunct2, rule_format, OF d(1,2)]
    by (rule conjunct1)
  have c4: "dispatch ?\<beta>' ''eventA'' (Num 42) ?ds
      = (Returned (),
         ?ds\<lparr>heard := [(1, ''eventA'', Num 42), (2, ''eventA'', Num 42)],
             console_error := [Err ''bad'']\<rparr>)"
    unfolding c4' d(3,4,5) by (simp add: List.map_filter_simps)
  show ?thesis using c1 c2 c3 c4 by (simp only: simp_thms)
qed

section \<open>The flat registry under removal\<close>



lemma registry_get_empty: "(registry_get s k = Arr []) = (eventHandlers s k = Arr [])"
  by (simp add: registry_get_def inherited_value_def)

lemma no_empty_list_own: "no_empty_list s = (\<forall>k. eventHandlers s k \<noteq> Arr [])"
  by (simp add: no_empty_list_def registry_get_empty)







lemma snd_relabel [simp]:
  "snd (case p of (Returned v, s1) \<Rightarrow> (c, s1) | (Thrown e, s1) \<Rightarrow> (Thrown e, s1)
        | (Exhausted, s1) \<Rightarrow> (Exhausted, s1) | (Unmodelled, s1) \<Rightarrow> (Unmodelled, s1)) = snd p"
  by (cases p; cases "fst p") auto







lemma no_empty_checkHandlerLimit [simp]:
  "no_empty_list (checkHandlerLimit e c s) = no_empty_list s"
  by (simp add: no_empty_list_own)







lemma no_empty_new [simp]: "no_empty_list (new_EventEmitter st)"
  by (simp add: no_empty_list_own)









section \<open>Wildcard matching\<close>








lemma on_star:
  "snd (on d \<beta> ''ns.*'' (Fn (UserFn n)) no_options (new_wild st))
     = (new_wild st)\<lparr>wildcardTree :=
          Node Undefined [(''ns'', Node Undefined [(''*'', Node (Fn (UserFn n)) [])])]\<rparr>"
  by (simp add: on_quiet[where p="Fn (UserFn n)" and s'="new_wild st"] internal_name_def
      store_handler_wild tree_eval)

lemma on_deep:
  "snd (on d \<beta> ''ns.**'' (Fn (UserFn n)) no_options (new_wild st))
     = (new_wild st)\<lparr>wildcardTree :=
          Node Undefined [(''ns'', Node (Fn (UserFn n)) [(''**'', Node (Fn (UserFn n)) [])])]\<rparr>"
  by (simp add: on_quiet[where p="Fn (UserFn n)" and s'="new_wild st"] internal_name_def
      store_handler_wild tree_eval)

lemma on_mixed:
  "snd (on d \<beta> ''ns.*.c.**'' (Fn (UserFn n)) no_options (new_wild st))
     = (new_wild st)\<lparr>wildcardTree :=
          Node Undefined [(''ns'', Node Undefined [(''*'', Node Undefined
            [(''c'', Node (Fn (UserFn n)) [(''**'', Node (Fn (UserFn n)) [])])])])]\<rparr>"
  by (simp add: on_quiet[where p="Fn (UserFn n)" and s'="new_wild st"] internal_name_def
      store_handler_wild tree_eval)






lemma on_wild_fields [simp]:
  "supportsWildcards (snd (on d \<beta> ''ns.*'' (Fn (UserFn n)) no_options (new_wild st)))"
  "supportsWildcards (snd (on d \<beta> ''ns.**'' (Fn (UserFn n)) no_options (new_wild st)))"
  "supportsWildcards (snd (on d \<beta> ''ns.*.c.**'' (Fn (UserFn n)) no_options (new_wild st)))"
  "calls (snd (on d \<beta> ''ns.*'' (Fn (UserFn n)) no_options (new_wild st))) = []"
  "calls (snd (on d \<beta> ''ns.**'' (Fn (UserFn n)) no_options (new_wild st))) = []"
  "calls (snd (on d \<beta> ''ns.*.c.**'' (Fn (UserFn n)) no_options (new_wild st))) = []"
  by (simp_all add: on_star on_deep on_mixed)



















end
